theory Spec2Isabelle
  imports Main
begin

section \<open>Tokens\<close>

text \<open>
  The token kinds of \<^verbatim>\<open>sql_compiler.TokenType\<close>, in the order of the enumeration. The
  constructor for \<^verbatim>\<open>TokenType.INT\<close> is written \<open>INT_TYPE\<close>, since \<open>INT\<close> is reserved in
  HOL terms.
\<close>

datatype TokenType =
    SELECT | FROM | WHERE | INSERT | INTO | VALUES | UPDATE | SET | DELETE | CREATE
  | TABLE | DROP | JOIN | ON | AND | OR | NOT | NULL | INT_TYPE | TEXT | FLOAT | DATE
  | EQUALS | GREATER | LESS | GREATER_EQUALS | LESS_EQUALS | NOT_EQUALS
  | PLUS | MINUS | ASTERISK | DIVIDE
  | COMMA | SEMICOLON | LEFT_PAREN | RIGHT_PAREN | DOT
  | IDENTIFIER | INTEGER | FLOAT_LITERAL | STRING | EOF | ERROR

record Token =
  ttype :: TokenType
  lexeme :: string
  tline :: nat
  tcolumn :: nat

section \<open>Characters\<close>

text \<open>
  Query text is a list of 8-bit characters, read as ASCII. The predicates are Python's
  \<^verbatim>\<open>str.isspace\<close>, \<^verbatim>\<open>str.isalpha\<close>, \<^verbatim>\<open>str.isdigit\<close>, \<^verbatim>\<open>str.isalnum\<close> and \<^verbatim>\<open>str.lower\<close>
  on the ASCII range; characters above 127 are classified as neither space, letter nor
  digit.
\<close>

definition isspace :: "char \<Rightarrow> bool" where
  "isspace c = (let n = (of_char c :: nat) in (9 \<le> n \<and> n \<le> 13) \<or> (28 \<le> n \<and> n \<le> 32))"

definition isalpha :: "char \<Rightarrow> bool" where
  "isalpha c = (let n = (of_char c :: nat) in (65 \<le> n \<and> n \<le> 90) \<or> (97 \<le> n \<and> n \<le> 122))"

definition isdigit :: "char \<Rightarrow> bool" where
  "isdigit c = (let n = (of_char c :: nat) in 48 \<le> n \<and> n \<le> 57)"

definition isalnum :: "char \<Rightarrow> bool" where
  "isalnum c = (isalpha c \<or> isdigit c)"

definition lower_char :: "char \<Rightarrow> char" where
  "lower_char c =
     (case map_of (zip ''ABCDEFGHIJKLMNOPQRSTUVWXYZ'' ''abcdefghijklmnopqrstuvwxyz'') c of
        Some d \<Rightarrow> d
      | None \<Rightarrow> c)"

definition lower :: "string \<Rightarrow> string" where
  "lower s = map lower_char s"

section \<open>Lexer\<close>

text \<open>
  The lexer's cursor. The field \<open>input\<close> holds the unread text, that is the source's
  \<^verbatim>\<open>self.input[self.position:]\<close>; \<open>line\<close> and \<open>column\<close> are the source's counters.
\<close>

record Lexer =
  input :: string
  line :: nat
  column :: nat

definition new_Lexer :: "string \<Rightarrow> Lexer" where
  "new_Lexer input_text = \<lparr>input = input_text, line = 1, column = 1\<rparr>"

definition keywords_table :: "string \<Rightarrow> TokenType option" where
  "keywords_table = map_of
     [(''select'', SELECT), (''from'', FROM), (''where'', WHERE), (''insert'', INSERT),
      (''into'', INTO), (''values'', VALUES), (''update'', UPDATE), (''set'', SET),
      (''delete'', DELETE), (''create'', CREATE), (''table'', TABLE), (''drop'', DROP),
      (''join'', JOIN), (''on'', ON), (''and'', AND), (''or'', OR), (''not'', NOT),
      (''null'', NULL), (''int'', INT_TYPE), (''text'', TEXT), (''float'', FLOAT),
      (''date'', DATE)]"

definition peek :: "Lexer \<Rightarrow> char" where
  "peek lx = (case input lx of [] \<Rightarrow> CHR 0x00 | c # _ \<Rightarrow> c)"

definition advance :: "Lexer \<Rightarrow> char \<times> Lexer" where
  "advance lx =
     (let char = peek lx in
      if char = CHR 0x0A
      then (char, lx\<lparr>input := tl (input lx), line := line lx + 1, column := 1\<rparr>)
      else (char, lx\<lparr>input := tl (input lx), column := column lx + 1\<rparr>))"

lemma input_advance: "input (snd (advance lx)) = tl (input lx)"
  by (simp add: advance_def Let_def)

lemma fst_advance: "fst (advance lx) = peek lx"
  by (simp add: advance_def Let_def)

lemma peek_hd: "input lx \<noteq> [] \<Longrightarrow> peek lx = hd (input lx)"
  by (cases "input lx") (simp_all add: peek_def)

lemma advance_shrinks:
  "peek lx \<noteq> CHR 0x00 \<Longrightarrow> length (input (snd (advance lx))) < length (input lx)"
  by (cases "input lx") (simp_all add: input_advance peek_def)

lemma isspace_not_null: "isspace c \<Longrightarrow> c \<noteq> CHR 0x00"
  by (auto simp: isspace_def)

lemma isalnum_not_null: "isalnum c \<Longrightarrow> c \<noteq> CHR 0x00"
  by (auto simp: isalnum_def isalpha_def isdigit_def)

lemma isdigit_not_null: "isdigit c \<Longrightarrow> c \<noteq> CHR 0x00"
  by (auto simp: isdigit_def)

function skip_whitespace :: "Lexer \<Rightarrow> Lexer" where
  "skip_whitespace lx =
     (if isspace (peek lx) then skip_whitespace (snd (advance lx)) else lx)"
  by pat_completeness auto
termination
  by (relation "measure (\<lambda>lx. length (input lx))")
     (auto intro!: advance_shrinks dest: isspace_not_null)

function skip_line :: "Lexer \<Rightarrow> Lexer" where
  "skip_line lx =
     (if peek lx \<noteq> CHR 0x0A \<and> peek lx \<noteq> CHR 0x00
      then skip_line (snd (advance lx)) else lx)"
  by pat_completeness auto
termination
  by (relation "measure (\<lambda>lx. length (input lx))") (auto intro!: advance_shrinks)

declare skip_whitespace.simps [simp del] skip_line.simps [simp del]

definition skip_comment :: "Lexer \<Rightarrow> Lexer" where
  "skip_comment lx = (if peek lx = CHR ''#'' then skip_line lx else lx)"

text \<open>The loop of \<^verbatim>\<open>Lexer.identifier\<close>, with the text read so far.\<close>

function identifier_loop :: "Lexer \<Rightarrow> string \<Rightarrow> string \<times> Lexer" where
  "identifier_loop lx acc =
     (if isalnum (peek lx) \<or> peek lx = CHR ''_''
      then identifier_loop (snd (advance lx)) (acc @ [fst (advance lx)])
      else (acc, lx))"
  by pat_completeness auto
termination
  by (relation "measure (\<lambda>(lx, acc). length (input lx))")
     (auto intro!: advance_shrinks dest: isalnum_not_null)

declare identifier_loop.simps [simp del]

definition identifier_token :: "Lexer \<Rightarrow> Token \<times> Lexer" where
  "identifier_token lx =
     (let start_column = column lx;
          (lexeme, lx') = identifier_loop lx [];
          token_type = (case keywords_table (lower lexeme) of Some k \<Rightarrow> k | None \<Rightarrow> IDENTIFIER)
      in (\<lparr>ttype = token_type, lexeme = lexeme, tline = line lx', tcolumn = start_column\<rparr>, lx'))"

text \<open>
  The loop of \<^verbatim>\<open>Lexer.number\<close>, with the text read so far and the flag \<open>is_float\<close>.
  A second decimal point leaves the loop (the source's \<^verbatim>\<open>break\<close>) without being read.
\<close>

function number_loop :: "Lexer \<Rightarrow> string \<Rightarrow> bool \<Rightarrow> string \<times> bool \<times> Lexer" where
  "number_loop lx acc is_float =
     (if isdigit (peek lx) \<or> peek lx = CHR ''.''
      then (if peek lx = CHR ''.'' \<and> is_float
            then (acc, is_float, lx)
            else number_loop (snd (advance lx)) (acc @ [fst (advance lx)])
                   (if peek lx = CHR ''.'' then True else is_float))
      else (acc, is_float, lx))"
  by pat_completeness auto
termination
  by (relation "measure (\<lambda>(lx, acc, is_float). length (input lx))")
     (auto intro!: advance_shrinks dest: isdigit_not_null)

declare number_loop.simps [simp del]

definition number :: "Lexer \<Rightarrow> Token \<times> Lexer" where
  "number lx =
     (let start_column = column lx;
          (lexeme, is_float, lx') = number_loop lx [] False
      in if is_float
         then (\<lparr>ttype = FLOAT_LITERAL, lexeme = lexeme, tline = line lx',
                 tcolumn = start_column\<rparr>, lx')
         else (\<lparr>ttype = INTEGER, lexeme = lexeme, tline = line lx',
                 tcolumn = start_column\<rparr>, lx'))"

text \<open>The loop of \<^verbatim>\<open>Lexer.string\<close>: up to the closing quote or the end of the input.\<close>

function string_loop :: "char \<Rightarrow> Lexer \<Rightarrow> string \<Rightarrow> string \<times> Lexer" where
  "string_loop quote lx acc =
     (if peek lx \<noteq> quote \<and> peek lx \<noteq> CHR 0x00
      then string_loop quote (snd (advance lx)) (acc @ [fst (advance lx)])
      else (acc, lx))"
  by pat_completeness auto
termination
  by (relation "measure (\<lambda>(quote, lx, acc). length (input lx))")
     (auto intro!: advance_shrinks)

declare string_loop.simps [simp del]

definition string_literal :: "Lexer \<Rightarrow> Token \<times> Lexer" where
  "string_literal lx =
     (let start_column = column lx;
          (quote, lx1) = advance lx;
          (lexeme, lx2) = string_loop quote lx1 []
      in if peek lx2 = CHR 0x00
         then (\<lparr>ttype = ERROR, lexeme = lexeme, tline = line lx2, tcolumn = start_column\<rparr>,
               lx2)
         else (let lx3 = snd (advance lx2)
               in (\<lparr>ttype = STRING, lexeme = lexeme, tline = line lx3,
                     tcolumn = start_column\<rparr>, lx3)))"

text \<open>
  A token of one character: the source advances and then builds the token at
  \<^verbatim>\<open>self.column - 1\<close>. For the comparison operators a following \<^verbatim>\<open>=\<close> is read too.
\<close>

definition single :: "TokenType \<Rightarrow> string \<Rightarrow> Lexer \<Rightarrow> Token \<times> Lexer" where
  "single ty s lx =
     (let lx1 = snd (advance lx)
      in (\<lparr>ttype = ty, lexeme = s, tline = line lx1, tcolumn = column lx1 - 1\<rparr>, lx1))"

definition double :: "TokenType \<Rightarrow> string \<Rightarrow> TokenType \<Rightarrow> string \<Rightarrow> Lexer \<Rightarrow> Token \<times> Lexer"
  where
  "double ty2 s2 ty1 s1 lx =
     (let lx1 = snd (advance lx)
      in if peek lx1 = CHR ''=''
         then (let lx2 = snd (advance lx1)
               in (\<lparr>ttype = ty2, lexeme = s2, tline = line lx2, tcolumn = column lx2 - 2\<rparr>,
                   lx2))
         else (\<lparr>ttype = ty1, lexeme = s1, tline = line lx1, tcolumn = column lx1 - 1\<rparr>, lx1))"

definition get_next_token :: "Lexer \<Rightarrow> Token \<times> Lexer" where
  "get_next_token lx0 =
     (let lx = skip_comment (skip_whitespace lx0) in
      if input lx = []
      then (\<lparr>ttype = EOF, lexeme = [], tline = line lx, tcolumn = column lx\<rparr>, lx)
      else (let char = peek lx in
        if isalpha char \<or> char = CHR ''_'' then identifier_token lx
        else if isdigit char then number lx
        else if char = CHR 0x27 \<or> char = CHR 0x22 then string_literal lx
        else if char = CHR ''='' then single EQUALS ''='' lx
        else if char = CHR ''>'' then double GREATER_EQUALS ''>='' GREATER ''>'' lx
        else if char = CHR ''<'' then double LESS_EQUALS ''<='' LESS ''<'' lx
        else if char = CHR ''!'' then double NOT_EQUALS ''!='' ERROR ''!'' lx
        else if char = CHR ''+'' then single PLUS ''+'' lx
        else if char = CHR ''-'' then single MINUS ''-'' lx
        else if char = CHR ''*'' then single ASTERISK ''*'' lx
        else if char = CHR ''/'' then single DIVIDE ''/'' lx
        else if char = CHR '','' then single COMMA '','' lx
        else if char = CHR '';'' then single SEMICOLON '';'' lx
        else if char = CHR ''('' then single LEFT_PAREN ''('' lx
        else if char = CHR '')'' then single RIGHT_PAREN '')'' lx
        else if char = CHR ''.'' then single DOT ''.'' lx
        else single ERROR [char] lx))"

subsection \<open>Every token but the last consumes text\<close>


lemma skip_whitespace_le: "length (input (skip_whitespace lx)) \<le> length (input lx)"
proof (induction lx rule: skip_whitespace.induct)
  case (1 lx)
  show ?case
  proof (cases "isspace (peek lx)")
    case True
    with 1 have "length (input (skip_whitespace lx)) \<le> length (input (snd (advance lx)))"
      by (subst skip_whitespace.simps) simp
    then show ?thesis by (simp add: input_advance)
  next
    case False
    then show ?thesis by (subst skip_whitespace.simps) simp
  qed
qed

lemma skip_line_le: "length (input (skip_line lx)) \<le> length (input lx)"
proof (induction lx rule: skip_line.induct)
  case (1 lx)
  show ?case
  proof (cases "peek lx \<noteq> CHR 0x0A \<and> peek lx \<noteq> CHR 0x00")
    case True
    with 1 have "length (input (skip_line lx)) \<le> length (input (snd (advance lx)))"
      by (subst skip_line.simps) simp
    then show ?thesis by (simp add: input_advance)
  next
    case False
    then show ?thesis by (subst skip_line.simps) auto
  qed
qed

lemma skip_comment_le: "length (input (skip_comment lx)) \<le> length (input lx)"
  by (simp add: skip_comment_def skip_line_le)

lemma identifier_loop_le:
  "identifier_loop lx acc = (l, lx') \<Longrightarrow> length (input lx') \<le> length (input lx)"
proof (induction lx acc arbitrary: l lx' rule: identifier_loop.induct)
  case (1 lx acc)
  show ?case
  proof (cases "isalnum (peek lx) \<or> peek lx = CHR ''_''")
    case True
    with "1.prems" have "identifier_loop (snd (advance lx)) (acc @ [fst (advance lx)]) = (l, lx')"
      by (subst (asm) identifier_loop.simps) simp
    from "1.IH"[OF True this] show ?thesis by (simp add: input_advance)
  next
    case False
    with "1.prems" show ?thesis by (subst (asm) identifier_loop.simps) auto
  qed
qed

lemma keywords_table_range:
  assumes "keywords_table s = Some k"
  shows "k \<in> {SELECT, FROM, WHERE, INSERT, INTO, VALUES, UPDATE, SET, DELETE, CREATE, TABLE,
              DROP, JOIN, ON, AND, OR, NOT, NULL, INT_TYPE, TEXT, FLOAT, DATE}"
proof -
  from assms have "(s, k) \<in> set
     [(''select'', SELECT), (''from'', FROM), (''where'', WHERE), (''insert'', INSERT),
      (''into'', INTO), (''values'', VALUES), (''update'', UPDATE), (''set'', SET),
      (''delete'', DELETE), (''create'', CREATE), (''table'', TABLE), (''drop'', DROP),
      (''join'', JOIN), (''on'', ON), (''and'', AND), (''or'', OR), (''not'', NOT),
      (''null'', NULL), (''int'', INT_TYPE), (''text'', TEXT), (''float'', FLOAT),
      (''date'', DATE)]"
    unfolding keywords_table_def by (rule map_of_SomeD)
  then show ?thesis by auto
qed

lemma identifier_token_shrinks:
  assumes "isalpha (peek lx) \<or> peek lx = CHR ''_''" and "identifier_token lx = (tok, lx')"
  shows "length (input lx') < length (input lx) \<and> ttype tok \<noteq> EOF"
proof -
  obtain l lx1 where loop: "identifier_loop lx [] = (l, lx1)" by (cases "identifier_loop lx []")
  from assms(1) have c: "isalnum (peek lx) \<or> peek lx = CHR ''_''" by (auto simp: isalnum_def)
  with loop have "identifier_loop (snd (advance lx)) ([] @ [fst (advance lx)]) = (l, lx1)"
    by (subst (asm) identifier_loop.simps) simp
  then have "length (input lx1) \<le> length (input (snd (advance lx)))"
    by (rule identifier_loop_le)
  moreover from c have "peek lx \<noteq> CHR 0x00" by (auto dest: isalnum_not_null)
  ultimately have "length (input lx1) < length (input lx)"
    using advance_shrinks[of lx] by simp
  moreover have "ttype tok \<noteq> EOF"
    using assms(2) loop
    by (auto simp: identifier_token_def Let_def split: option.splits dest!: keywords_table_range)
  ultimately show ?thesis using assms(2) loop by (auto simp: identifier_token_def Let_def)
qed

lemma string_loop_le:
  "string_loop q lx acc = (l, lx') \<Longrightarrow> length (input lx') \<le> length (input lx)"
proof (induction q lx acc arbitrary: l lx' rule: string_loop.induct)
  case (1 q lx acc)
  show ?case
  proof (cases "peek lx \<noteq> q \<and> peek lx \<noteq> CHR 0x00")
    case True
    with "1.prems" have "string_loop q (snd (advance lx)) (acc @ [fst (advance lx)]) = (l, lx')"
      by (subst (asm) string_loop.simps) simp
    from "1.IH"[OF True this] show ?thesis by (simp add: input_advance)
  next
    case False
    with "1.prems" show ?thesis by (subst (asm) string_loop.simps) auto
  qed
qed

lemma string_literal_shrinks:
  assumes "input lx \<noteq> []" and "string_literal lx = (tok, lx')"
  shows "length (input lx') < length (input lx) \<and> ttype tok \<noteq> EOF"
proof -
  obtain q lx1 where a: "advance lx = (q, lx1)" by (cases "advance lx")
  obtain l lx2 where loop: "string_loop q lx1 [] = (l, lx2)" by (cases "string_loop q lx1 []")
  from a have "input lx1 = tl (input lx)" using input_advance[of lx] by simp
  with assms(1) have "length (input lx1) < length (input lx)" by (cases "input lx") simp_all
  moreover from loop have "length (input lx2) \<le> length (input lx1)" by (rule string_loop_le)
  moreover have "length (input (snd (advance lx2))) \<le> length (input lx2)"
    by (simp add: input_advance)
  ultimately show ?thesis using assms(2) a loop
    by (auto simp: string_literal_def Let_def split: if_splits)
qed

lemma single_shrinks:
  assumes "input lx \<noteq> []" and "single ty s lx = (tok, lx')"
  shows "length (input lx') < length (input lx) \<and> ttype tok = ty"
  using assms by (cases "input lx") (auto simp: single_def Let_def input_advance)

lemma double_shrinks:
  assumes "input lx \<noteq> []" and "double ty2 s2 ty1 s1 lx = (tok, lx')"
  shows "length (input lx') < length (input lx) \<and> (ttype tok = ty2 \<or> ttype tok = ty1)"
  using assms
  by (cases "input lx") (auto simp: double_def Let_def input_advance split: if_splits)

lemma number_loop_run:
  "number_loop lx acc f = (lexm, f', lx') \<Longrightarrow>
   \<exists>run. lexm = acc @ run \<and> input lx = run @ input lx'
      \<and> (\<forall>c \<in> set run. isdigit c \<or> c = CHR ''.'')
      \<and> count_list run (CHR ''.'') \<le> 1
      \<and> (f \<longrightarrow> CHR ''.'' \<notin> set run)
      \<and> (f' \<longleftrightarrow> f \<or> CHR ''.'' \<in> set run)
      \<and> \<not> isdigit (peek lx') \<and> (peek lx' = CHR ''.'' \<longrightarrow> f')"
proof (induction lx acc f arbitrary: lexm f' lx' rule: number_loop.induct)
  case (1 lx acc is_float)
  show ?case
  proof (cases "isdigit (peek lx) \<or> peek lx = CHR ''.''")
    case False
    with "1.prems" show ?thesis by (subst (asm) number_loop.simps) (auto simp: isdigit_def)
  next
    case True
    note go = True
    show ?thesis
    proof (cases "peek lx = CHR ''.'' \<and> is_float")
      case True
      with go "1.prems" have "lexm = acc" "f' = is_float" "lx' = lx"
        by (subst (asm) number_loop.simps, simp)+
      with True show ?thesis by (auto simp: isdigit_def)
    next
      case False
      let ?f = "if peek lx = CHR ''.'' then True else is_float"
      from go have ne: "input lx \<noteq> []"
        by (auto simp: peek_def isdigit_def split: list.splits)
      then have inp: "input lx = peek lx # input (snd (advance lx))"
        by (cases "input lx") (simp_all add: peek_def input_advance)
      from go False "1.prems"
      have step: "number_loop (snd (advance lx)) (acc @ [fst (advance lx)]) ?f = (lexm, f', lx')"
        by (subst (asm) number_loop.simps) (simp split: if_splits)
      from "1.IH"[OF go False step] obtain run where
        r: "lexm = (acc @ [fst (advance lx)]) @ run" "input (snd (advance lx)) = run @ input lx'"
        "\<forall>c \<in> set run. isdigit c \<or> c = CHR ''.''" "count_list run (CHR ''.'') \<le> 1"
        "?f \<longrightarrow> CHR ''.'' \<notin> set run" "f' \<longleftrightarrow> ?f \<or> CHR ''.'' \<in> set run"
        "\<not> isdigit (peek lx')" "peek lx' = CHR ''.'' \<longrightarrow> f'"
        by blast
      show ?thesis
        apply (rule exI[of _ "peek lx # run"])
        using r go False inp by (auto simp: fst_advance count_list_0_iff)
    qed
  qed
qed


lemma number_shrinks:
  assumes "isdigit (peek lx)" and "number lx = (tok, lx')"
  shows "length (input lx') < length (input lx) \<and> ttype tok \<noteq> EOF"
proof -
  obtain l f lx1 where loop: "number_loop lx [] False = (l, f, lx1)"
    by (cases "number_loop lx [] False") auto
  from number_loop_run[OF loop] obtain run where
    r: "input lx = run @ input lx1" "\<not> isdigit (peek lx1)" by auto
  from assms(1) r(2) have "run \<noteq> []" using r(1) by (auto simp: peek_def)
  with r(1) have "length (input lx1) < length (input lx)" by simp
  then show ?thesis using assms(2) loop by (auto simp: number_def Let_def split: if_splits)
qed

lemma get_next_token_shrinks:
  assumes "get_next_token lx = (tok, lx')"
  shows "length (input lx') \<le> length (input lx)
       \<and> (ttype tok \<noteq> EOF \<longrightarrow> length (input lx') < length (input lx))"
proof -
  let ?l = "skip_comment (skip_whitespace lx)"
  have le: "length (input ?l) \<le> length (input lx)"
    using skip_comment_le[of "skip_whitespace lx"] skip_whitespace_le[of lx] by simp
  show ?thesis
  proof (cases "input ?l = []")
    case True
    with assms have "lx' = ?l" "ttype tok = EOF" by (auto simp: get_next_token_def Let_def)
    with le show ?thesis by simp
  next
    case False
    have "length (input lx') < length (input ?l)"
      using assms False identifier_token_shrinks[of ?l tok lx']
      by (auto simp: get_next_token_def Let_def split: if_splits
               dest: number_shrinks string_literal_shrinks single_shrinks double_shrinks)
    with le show ?thesis by simp
  qed
qed

text \<open>
  \<^verbatim>\<open>SQLGenerator.tokenize\<close>: the tokens of a query up to, and without, the first
  \<open>EOF\<close> token.
\<close>

function tokenize_loop :: "Lexer \<Rightarrow> Token \<Rightarrow> Token list \<Rightarrow> Token list" where
  "tokenize_loop lx token tokens =
     (if ttype token \<noteq> EOF
      then (case get_next_token lx of
              (token', lx') \<Rightarrow> tokenize_loop lx' token' (tokens @ [token]))
      else tokens)"
  by pat_completeness auto
termination
  apply (relation "measure (\<lambda>(lx, token, tokens).
                   length (input lx) + (if ttype token = EOF then 0 else 1))")
   apply simp
  apply (auto dest!: get_next_token_shrinks [OF sym])
  done

declare tokenize_loop.simps [simp del]

definition tokenize :: "string \<Rightarrow> Token list" where
  "tokenize query =
     (case get_next_token (new_Lexer query) of (token, lx) \<Rightarrow> tokenize_loop lx token [])"

section \<open>Values and syntax trees\<close>

text \<open>
  The exceptions of Python that the program can raise. Messages are not modelled.
\<close>

datatype py_error =
  SyntaxError | ValueError | KeyError | TypeError | AttributeError | IndexError
  | ZeroDivisionError | OverflowError

text \<open>
  The values that the program stores and compares: \<^verbatim>\<open>None\<close>, \<^verbatim>\<open>int\<close>, \<^verbatim>\<open>float\<close>, \<^verbatim>\<open>str\<close>.
  Python's floating point numbers are not modelled: their type is the parameter \<open>'f\<close>.
\<close>

datatype 'f val = PyNone | PyInt int | PyFloat 'f | PyStr string

text \<open>
  What the program uses of Python's \<^verbatim>\<open>float\<close>, as a parameter of the model:
  \<^verbatim>\<open>float(s)\<close> on a lexeme of digits with one decimal point, \<^verbatim>\<open>str(x)\<close>, \<^verbatim>\<open>bool(x)\<close>,
  the comparison of two numbers of which at least one is a float (one of the six
  comparison operators, given as its token kind), and the arithmetic of two numbers of
  which at least one is a float, or the true division of two integers.
\<close>

record 'f float_ops =
  float_of_str :: "string \<Rightarrow> 'f"
  str_of_float :: "'f \<Rightarrow> string"
  bool_of_float :: "'f \<Rightarrow> bool"
  float_compare :: "TokenType \<Rightarrow> 'f val \<Rightarrow> 'f val \<Rightarrow> bool"
  float_arith :: "TokenType \<Rightarrow> 'f val \<Rightarrow> 'f val \<Rightarrow> py_error + 'f val"

text \<open>
  The nodes of expressions and conditions (\<^verbatim>\<open>ASTNode\<close> with the node types \<^verbatim>\<open>IDENTIFIER\<close>,
  \<^verbatim>\<open>LITERAL\<close>, \<^verbatim>\<open>EXPRESSION\<close>, \<^verbatim>\<open>CONDITION\<close>): an identifier has the field \<^verbatim>\<open>name\<close>, a
  literal the fields \<^verbatim>\<open>value_type\<close> and \<^verbatim>\<open>value\<close>, an expression and a condition the
  fields \<^verbatim>\<open>left\<close>, \<^verbatim>\<open>operator\<close>, \<^verbatim>\<open>right\<close>.
\<close>

datatype 'f node =
    Identifier string
  | Literal TokenType "'f val"
  | Expression "'f node" TokenType "'f node"
  | Condition "'f node" TokenType "'f node"

text \<open>A \<^verbatim>\<open>COLUMN_DEF\<close> node: the field \<^verbatim>\<open>name\<close> is an identifier node.\<close>

datatype 'f column_def_node = ColumnDefNode (cd_name: "'f node") (cd_data_type: TokenType)

text \<open>A \<^verbatim>\<open>JOIN\<close> node: the name of its table reference and its condition.\<close>

datatype 'f join_node = Join (join_table: string) (join_condition: "'f node")

text \<open>
  The statements. A table is referred to by a node that carries only the field
  \<^verbatim>\<open>name\<close> (\<^verbatim>\<open>TABLE_REF\<close> in a \<^verbatim>\<open>SELECT\<close>, \<^verbatim>\<open>IDENTIFIER\<close> elsewhere); the model keeps the name.
  The fields are, in this order: \<^verbatim>\<open>columns\<close>, \<^verbatim>\<open>tables\<close>, \<^verbatim>\<open>joins\<close>, \<^verbatim>\<open>where_clause\<close> of a
  \<^verbatim>\<open>SELECT\<close>; \<^verbatim>\<open>table\<close>, \<^verbatim>\<open>columns\<close>, \<^verbatim>\<open>values\<close> of an \<^verbatim>\<open>INSERT\<close>; \<^verbatim>\<open>table\<close>, \<^verbatim>\<open>set_clauses\<close>,
  \<^verbatim>\<open>where_clause\<close> of an \<^verbatim>\<open>UPDATE\<close>; \<^verbatim>\<open>table\<close>, \<^verbatim>\<open>where_clause\<close> of a \<^verbatim>\<open>DELETE\<close>; \<^verbatim>\<open>table\<close>,
  \<^verbatim>\<open>columns\<close> of a \<^verbatim>\<open>CREATE\<close>; \<^verbatim>\<open>table\<close> of a \<^verbatim>\<open>DROP\<close>.
\<close>

datatype 'f stmt =
    SelectStmt "'f node list" "string list" "'f join_node list" "'f node option"
  | InsertStmt string "'f node list" "'f node list"
  | UpdateStmt string "'f node list" "'f node option"
  | DeleteStmt string "'f node option"
  | CreateStmt string "'f column_def_node list"
  | DropStmt string

section \<open>Parser\<close>

text \<open>Sequencing of steps that may raise: the first exception ends the computation.\<close>

fun and_then :: "'e + 'a \<Rightarrow> ('a \<Rightarrow> 'e + 'b) \<Rightarrow> 'e + 'b" where
  "and_then (Inl e) f = Inl e"
| "and_then (Inr x) f = f x"

lemma and_then_cong [fundef_cong]:
  "m = m' \<Longrightarrow> (\<And>x. m' = Inr x \<Longrightarrow> f x = f' x) \<Longrightarrow> and_then m f = and_then m' f'"
  by (cases m') auto

lemma and_then_Inr: "and_then m f = Inr y \<longleftrightarrow> (\<exists>x. m = Inr x \<and> f x = Inr y)"
  by (cases m) auto

record Parser =
  lexer :: Lexer
  current_token :: Token

definition new_Parser :: "Lexer \<Rightarrow> Parser" where
  "new_Parser lx = (case get_next_token lx of (tok, lx') \<Rightarrow> \<lparr>lexer = lx', current_token = tok\<rparr>)"

definition consume :: "TokenType \<Rightarrow> Parser \<Rightarrow> py_error + (Token \<times> Parser)" where
  "consume expected_type p =
     (if ttype (current_token p) = expected_type
      then (case get_next_token (lexer p) of
              (tok, lx') \<Rightarrow> Inr (current_token p, \<lparr>lexer = lx', current_token = tok\<rparr>))
      else Inl SyntaxError)"

text \<open>The text still to be parsed, counting the token in hand.\<close>

definition psize :: "Parser \<Rightarrow> nat" where
  "psize p = length (input (lexer p)) + (if ttype (current_token p) = EOF then 0 else 1)"

lemma consume_shrinks:
  assumes "consume ty p = Inr (t, p')" and "ty \<noteq> EOF"
  shows "psize p' < psize p"
proof -
  obtain tok lx' where g: "get_next_token (lexer p) = (tok, lx')"
    by (cases "get_next_token (lexer p)")
  from assms g have ty: "ttype (current_token p) = ty" and p': "p' = \<lparr>lexer = lx', current_token = tok\<rparr>"
    by (auto simp: consume_def split: if_splits)
  from get_next_token_shrinks[OF g] show ?thesis
    using ty p' assms(2) by (auto simp: psize_def)
qed

text \<open>
  \<^verbatim>\<open>int(s)\<close> on a lexeme of decimal digits. Integers are unbounded; the limit that recent
  versions of Python put on the number of digits of \<^verbatim>\<open>s\<close> is not modelled.
\<close>

definition digit_value :: "char \<Rightarrow> int" where
  "digit_value c = int (of_char c) - 48"

definition int_of_str :: "string \<Rightarrow> int" where
  "int_of_str s = foldl (\<lambda>a c. 10 * a + digit_value c) 0 s"

definition literal :: "'f float_ops \<Rightarrow> Parser \<Rightarrow> py_error + ('f node \<times> Parser)" where
  "literal h p =
     (let tok = current_token p in
      if ttype tok = INTEGER then
        and_then (consume INTEGER p)
          (\<lambda>(_, p'). Inr (Literal INTEGER (PyInt (int_of_str (lexeme tok))), p'))
      else if ttype tok = FLOAT_LITERAL then
        and_then (consume FLOAT_LITERAL p)
          (\<lambda>(_, p'). Inr (Literal FLOAT_LITERAL (PyFloat (float_of_str h (lexeme tok))), p'))
      else if ttype tok = STRING then
        and_then (consume STRING p)
          (\<lambda>(_, p'). Inr (Literal STRING (PyStr (lexeme tok)), p'))
      else if ttype tok = NULL then
        and_then (consume NULL p) (\<lambda>(_, p'). Inr (Literal NULL PyNone, p'))
      else Inl SyntaxError)"

lemma literal_shrinks: "literal h p = Inr (n, p') \<Longrightarrow> psize p' < psize p"
  by (auto simp: literal_def Let_def and_then_Inr split: if_splits dest: consume_shrinks)

function expression :: "'f float_ops \<Rightarrow> Parser \<Rightarrow> py_error + ('f node \<times> Parser)" where
  "expression h p =
     (if ttype (current_token p) = IDENTIFIER then
        (let node = Identifier (lexeme (current_token p)) in
         and_then (consume IDENTIFIER p) (\<lambda>(_, p1).
           if ttype (current_token p1) = DOT then
             and_then (consume DOT p1) (\<lambda>(_, p2).
               if ttype (current_token p2) = IDENTIFIER then
                 (let column_node = Identifier (lexeme (current_token p2)) in
                  and_then (consume IDENTIFIER p2) (\<lambda>(_, p3).
                    Inr (Expression node DOT column_node, p3)))
               else Inl SyntaxError)
           else Inr (node, p1)))
      else if ttype (current_token p) \<in> {INTEGER, FLOAT_LITERAL, STRING, NULL} then literal h p
      else if ttype (current_token p) = LEFT_PAREN then
        and_then (consume LEFT_PAREN p) (\<lambda>(_, p1).
        and_then (expression h p1) (\<lambda>(node, p2).
        and_then (consume RIGHT_PAREN p2) (\<lambda>(_, p3).
          Inr (node, p3))))
      else Inl SyntaxError)"
  by pat_completeness auto
termination
  by (relation "measure (\<lambda>(h, p). psize p)") (auto dest: consume_shrinks)

declare expression.simps [simp del]

lemma expression_shrinks: "expression h p = Inr (n, p') \<Longrightarrow> psize p' < psize p"
proof (induction h p arbitrary: n p' rule: expression.induct)
  case (1 h p)
  let ?ty = "ttype (current_token p)"
  show ?case
  proof (cases "?ty = LEFT_PAREN")
    case True
    then have a: "?ty \<noteq> IDENTIFIER" and b: "?ty \<notin> {INTEGER, FLOAT_LITERAL, STRING, NULL}"
      by simp_all
    from "1.prems" True obtain t1 p1 p2 t3 where
      c1: "consume LEFT_PAREN p = Inr (t1, p1)" and e: "expression h p1 = Inr (n, p2)"
      and c3: "consume RIGHT_PAREN p2 = Inr (t3, p')"
      by (subst (asm) expression.simps) (auto simp: and_then_Inr)
    from "1.IH"[OF a b True c1 refl e] consume_shrinks[OF c1] consume_shrinks[OF c3]
    show ?thesis by simp
  next
    case False
    with "1.prems" show ?thesis
      by (subst (asm) expression.simps)
         (auto simp: Let_def and_then_Inr split: if_splits
               dest!: consume_shrinks literal_shrinks)
  qed
qed

text \<open>
  \<^verbatim>\<open>Parser.condition\<close>: an operand (an expression, or a comparison of two expressions)
  and then the source's \<^verbatim>\<open>while\<close> loop over \<open>AND\<close> and \<open>OR\<close>, here \<open>condition_loop\<close> with the
  node built so far; the right operand of a connective is parsed by \<open>condition\<close> itself.
\<close>

function condition :: "'f float_ops \<Rightarrow> Parser \<Rightarrow> py_error + ('f node \<times> Parser)"
  and condition_loop :: "'f float_ops \<Rightarrow> 'f node \<Rightarrow> Parser \<Rightarrow> py_error + ('f node \<times> Parser)"
  where
  "condition h p =
     and_then (expression h p) (\<lambda>(node, p1).
     and_then
       (if ttype (current_token p1) \<in>
             {EQUALS, NOT_EQUALS, GREATER, LESS, GREATER_EQUALS, LESS_EQUALS}
        then (let operator_type = ttype (current_token p1) in
              and_then (consume operator_type p1) (\<lambda>(_, p2).
              and_then (expression h p2) (\<lambda>(right, p3).
                Inr (Condition node operator_type right, p3))))
        else Inr (node, p1))
       (\<lambda>(node, p4). condition_loop h node p4))"
| "condition_loop h node p =
     (if ttype (current_token p) \<in> {AND, OR}
      then (let operator_type = ttype (current_token p) in
            and_then (consume operator_type p) (\<lambda>(_, p1).
            and_then (condition h p1) (\<lambda>(right, p2).
              condition_loop h (Condition node operator_type right) p2)))
      else Inr (node, p))"
  by pat_completeness auto

lemma operand_le:
  assumes "expression h p = Inr (node, p1)"
    and "(if ttype (current_token p1) \<in>
             {EQUALS, NOT_EQUALS, GREATER, LESS, GREATER_EQUALS, LESS_EQUALS}
        then (let operator_type = ttype (current_token p1) in
              and_then (consume operator_type p1) (\<lambda>(_, p2).
              and_then (expression h p2) (\<lambda>(right, p3).
                Inr (Condition node operator_type right, p3))))
        else Inr (node, p1)) = Inr (node', p4)"
  shows "psize p4 < psize p"
  using assms
  by (auto simp: Let_def and_then_Inr split: if_splits
           dest!: expression_shrinks consume_shrinks)

lemma condition_dom_le:
  "condition_condition_loop_dom (Inl (h, p)) \<Longrightarrow> condition h p = Inr (n, p') \<Longrightarrow> psize p' \<le> psize p"
  "condition_condition_loop_dom (Inr (h, node, p)) \<Longrightarrow> condition_loop h node p = Inr (n, p')
     \<Longrightarrow> psize p' \<le> psize p"
proof (induction h p and h node p arbitrary: n p' and n p' rule: condition_condition_loop.pinduct)
  case (1 h p)
  from "1.prems" "1.hyps" obtain node p1 node' p4 where
    e: "expression h p = Inr (node, p1)"
    and o: "(if ttype (current_token p1) \<in>
             {EQUALS, NOT_EQUALS, GREATER, LESS, GREATER_EQUALS, LESS_EQUALS}
        then (let operator_type = ttype (current_token p1) in
              and_then (consume operator_type p1) (\<lambda>(_, p2).
              and_then (expression h p2) (\<lambda>(right, p3).
                Inr (Condition node operator_type right, p3))))
        else Inr (node, p1)) = Inr (node', p4)"
    and l: "condition_loop h node' p4 = Inr (n, p')"
    by (auto simp: condition.psimps and_then_Inr)
  from "1.IH"[OF e refl o refl l] operand_le[OF e o] show ?case by simp
next
  case (2 h node p)
  show ?case
  proof (cases "ttype (current_token p) \<in> {AND, OR}")
    case False
    with "2.prems" "2.hyps" show ?thesis by (simp add: condition_loop.psimps)
  next
    case True
    with "2.prems" "2.hyps" obtain t p1 right p2 where
      c: "consume (ttype (current_token p)) p = Inr (t, p1)"
      and r: "condition h p1 = Inr (right, p2)"
      and l: "condition_loop h (Condition node (ttype (current_token p)) right) p2 = Inr (n, p')"
      by (auto simp: condition_loop.psimps and_then_Inr Let_def)
    from True have ne: "ttype (current_token p) \<noteq> EOF" by auto
    from "2.IH"(1)[OF True refl c refl r] "2.IH"(2)[OF True refl c refl r refl l]
      consume_shrinks[OF c ne]
    show ?thesis by simp
  qed
qed

termination condition
proof (relation "measure (\<lambda>x. case x of Inl (h, p) \<Rightarrow> 2 * psize p + 1
                                      | Inr (h, node, p) \<Rightarrow> 2 * psize p)", goal_cases)
  case 1
  show ?case by simp
next
  case (2 h p x node p1 xa node' p4)
  then show ?case using operand_le[of h p node p1 node' p4] by auto
next
  case (3 h node p operator_type x t p1)
  then show ?case using consume_shrinks[of operator_type p t p1] by auto
next
  case (4 h node p operator_type x t p1 xa right p2)
  then show ?case
    using consume_shrinks[of operator_type p t p1] condition_dom_le(1)[of h p1 right p2]
    by auto
qed

declare condition.simps [simp del] condition_loop.simps [simp del]

lemma condition_shrinks:
  "condition h p = Inr (n, p') \<Longrightarrow> psize p' < psize p"
  "condition_loop h node p = Inr (n, p') \<Longrightarrow> psize p' \<le> psize p"
proof (induction h p and h node p arbitrary: n p' and n p' rule: condition_condition_loop.induct)
  case (1 h p)
  from "1.prems" obtain node p1 node' p4 where
    e: "expression h p = Inr (node, p1)"
    and o: "(if ttype (current_token p1) \<in>
             {EQUALS, NOT_EQUALS, GREATER, LESS, GREATER_EQUALS, LESS_EQUALS}
        then (let operator_type = ttype (current_token p1) in
              and_then (consume operator_type p1) (\<lambda>(_, p2).
              and_then (expression h p2) (\<lambda>(right, p3).
                Inr (Condition node operator_type right, p3))))
        else Inr (node, p1)) = Inr (node', p4)"
    and l: "condition_loop h node' p4 = Inr (n, p')"
    by (auto simp: condition.simps and_then_Inr)
  from "1.IH"[OF e refl o refl l] operand_le[OF e o] show ?case by simp
next
  case (2 h node p)
  show ?case
  proof (cases "ttype (current_token p) \<in> {AND, OR}")
    case False
    with "2.prems" show ?thesis by (simp add: condition_loop.simps)
  next
    case True
    with "2.prems" obtain t p1 right p2 where
      c: "consume (ttype (current_token p)) p = Inr (t, p1)"
      and r: "condition h p1 = Inr (right, p2)"
      and l: "condition_loop h (Condition node (ttype (current_token p)) right) p2 = Inr (n, p')"
      by (auto simp: condition_loop.simps and_then_Inr Let_def)
    from True have ne: "ttype (current_token p) \<noteq> EOF" by auto
    from "2.IH"(1)[OF True refl c refl r] "2.IH"(2)[OF True refl c refl r refl l]
      consume_shrinks[OF c ne]
    show ?thesis by simp
  qed
qed

text \<open>
  The loop \<^verbatim>\<open>while self.current_token.type == TokenType.COMMA\<close> of \<^verbatim>\<open>column_list\<close> and of
  \<^verbatim>\<open>insert_statement\<close>, with the list built so far.
\<close>

function comma_expressions ::
  "'f float_ops \<Rightarrow> Parser \<Rightarrow> 'f node list \<Rightarrow> py_error + ('f node list \<times> Parser)" where
  "comma_expressions h p acc =
     (if ttype (current_token p) = COMMA
      then and_then (consume COMMA p) (\<lambda>(_, p1).
           and_then (expression h p1) (\<lambda>(e, p2).
             comma_expressions h p2 (acc @ [e])))
      else Inr (acc, p))"
  by pat_completeness auto
termination
  by (relation "measure (\<lambda>(h, p, acc). psize p)")
     (auto dest!: consume_shrinks expression_shrinks)

declare comma_expressions.simps [simp del]

definition column_list :: "'f float_ops \<Rightarrow> Parser \<Rightarrow> py_error + ('f node list \<times> Parser)" where
  "column_list h p =
     (if ttype (current_token p) = ASTERISK
      then and_then (consume ASTERISK p) (\<lambda>(_, p1). Inr ([Identifier ''*''], p1))
      else and_then (expression h p) (\<lambda>(e, p1). comma_expressions h p1 [e]))"

definition table_reference :: "Parser \<Rightarrow> py_error + (string \<times> Parser)" where
  "table_reference p =
     (if ttype (current_token p) = IDENTIFIER
      then and_then (consume IDENTIFIER p) (\<lambda>(_, p1). Inr (lexeme (current_token p), p1))
      else Inl SyntaxError)"

lemma table_reference_shrinks: "table_reference p = Inr (n, p') \<Longrightarrow> psize p' < psize p"
  by (auto simp: table_reference_def and_then_Inr split: if_splits dest!: consume_shrinks)

function comma_tables :: "Parser \<Rightarrow> string list \<Rightarrow> py_error + (string list \<times> Parser)" where
  "comma_tables p acc =
     (if ttype (current_token p) = COMMA
      then and_then (consume COMMA p) (\<lambda>(_, p1).
           and_then (table_reference p1) (\<lambda>(t, p2).
             comma_tables p2 (acc @ [t])))
      else Inr (acc, p))"
  by pat_completeness auto
termination
  by (relation "measure (\<lambda>(p, acc). psize p)")
     (auto dest!: consume_shrinks table_reference_shrinks)

declare comma_tables.simps [simp del]

definition table_list :: "Parser \<Rightarrow> py_error + (string list \<times> Parser)" where
  "table_list p = and_then (table_reference p) (\<lambda>(t, p1). comma_tables p1 [t])"

definition join_clause :: "'f float_ops \<Rightarrow> Parser \<Rightarrow> py_error + ('f join_node \<times> Parser)" where
  "join_clause h p =
     and_then (consume JOIN p) (\<lambda>(_, p1).
     and_then (table_reference p1) (\<lambda>(t, p2).
     and_then (consume ON p2) (\<lambda>(_, p3).
     and_then (condition h p3) (\<lambda>(c, p4).
       Inr (Join t c, p4)))))"

lemma join_clause_shrinks: "join_clause h p = Inr (j, p') \<Longrightarrow> psize p' < psize p"
  by (auto simp: join_clause_def and_then_Inr
           dest!: consume_shrinks table_reference_shrinks condition_shrinks(1))

function join_loop ::
  "'f float_ops \<Rightarrow> Parser \<Rightarrow> 'f join_node list \<Rightarrow> py_error + ('f join_node list \<times> Parser)"
  where
  "join_loop h p acc =
     (if ttype (current_token p) = JOIN
      then and_then (join_clause h p) (\<lambda>(j, p1). join_loop h p1 (acc @ [j]))
      else Inr (acc, p))"
  by pat_completeness auto
termination
  by (relation "measure (\<lambda>(h, p, acc). psize p)") (auto dest!: join_clause_shrinks)

declare join_loop.simps [simp del]

text \<open>The optional \<^verbatim>\<open>WHERE\<close> clause of \<^verbatim>\<open>SELECT\<close>, \<^verbatim>\<open>UPDATE\<close> and \<^verbatim>\<open>DELETE\<close>.\<close>

definition where_clause ::
  "'f float_ops \<Rightarrow> Parser \<Rightarrow> py_error + ('f node option \<times> Parser)" where
  "where_clause h p =
     (if ttype (current_token p) = WHERE
      then and_then (consume WHERE p) (\<lambda>(_, p1).
           and_then (condition h p1) (\<lambda>(c, p2). Inr (Some c, p2)))
      else Inr (None, p))"

definition select_statement :: "'f float_ops \<Rightarrow> Parser \<Rightarrow> py_error + ('f stmt \<times> Parser)" where
  "select_statement h p =
     and_then (consume SELECT p) (\<lambda>(_, p1).
     and_then (column_list h p1) (\<lambda>(columns, p2).
     and_then (consume FROM p2) (\<lambda>(_, p3).
     and_then (table_list p3) (\<lambda>(tables, p4).
     and_then (join_loop h p4 []) (\<lambda>(joins, p5).
     and_then (where_clause h p5) (\<lambda>(w, p6).
       Inr (SelectStmt columns tables joins w, p6)))))))"

text \<open>The table name after \<^verbatim>\<open>INTO\<close>, \<^verbatim>\<open>UPDATE\<close>, \<^verbatim>\<open>FROM\<close> and \<^verbatim>\<open>TABLE\<close>.\<close>

definition table_name :: "Parser \<Rightarrow> py_error + (string \<times> Parser)" where
  "table_name p =
     (if ttype (current_token p) = IDENTIFIER
      then and_then (consume IDENTIFIER p) (\<lambda>(_, p1). Inr (lexeme (current_token p), p1))
      else Inl SyntaxError)"

definition insert_statement :: "'f float_ops \<Rightarrow> Parser \<Rightarrow> py_error + ('f stmt \<times> Parser)" where
  "insert_statement h p =
     and_then (consume INSERT p) (\<lambda>(_, p1).
     and_then (consume INTO p1) (\<lambda>(_, p2).
     and_then (table_name p2) (\<lambda>(t, p3).
     and_then
       (if ttype (current_token p3) = LEFT_PAREN
        then and_then (consume LEFT_PAREN p3) (\<lambda>(_, p4).
             and_then (column_list h p4) (\<lambda>(columns, p5).
             and_then (consume RIGHT_PAREN p5) (\<lambda>(_, p6). Inr (columns, p6))))
        else Inr ([], p3))
       (\<lambda>(columns, p7).
     and_then (consume VALUES p7) (\<lambda>(_, p8).
     and_then (consume LEFT_PAREN p8) (\<lambda>(_, p9).
     and_then (expression h p9) (\<lambda>(e, p10).
     and_then (comma_expressions h p10 [e]) (\<lambda>(vals, p11).
     and_then (consume RIGHT_PAREN p11) (\<lambda>(_, p12).
       Inr (InsertStmt t columns vals, p12))))))))))"

text \<open>One \<^verbatim>\<open>column = expression\<close> of \<^verbatim>\<open>UPDATE\<close>: an \<^verbatim>\<open>EXPRESSION\<close> node with operator \<open>EQUALS\<close>.\<close>

definition set_clause :: "'f float_ops \<Rightarrow> Parser \<Rightarrow> py_error + ('f node \<times> Parser)" where
  "set_clause h p =
     (if ttype (current_token p) = IDENTIFIER
      then (let column_node = Identifier (lexeme (current_token p)) in
            and_then (consume IDENTIFIER p) (\<lambda>(_, p1).
            and_then (consume EQUALS p1) (\<lambda>(_, p2).
            and_then (expression h p2) (\<lambda>(right, p3).
              Inr (Expression column_node EQUALS right, p3)))))
      else Inl SyntaxError)"

lemma set_clause_shrinks: "set_clause h p = Inr (n, p') \<Longrightarrow> psize p' < psize p"
  by (auto simp: set_clause_def Let_def and_then_Inr split: if_splits
           dest!: consume_shrinks expression_shrinks)

function comma_set_clauses ::
  "'f float_ops \<Rightarrow> Parser \<Rightarrow> 'f node list \<Rightarrow> py_error + ('f node list \<times> Parser)" where
  "comma_set_clauses h p acc =
     (if ttype (current_token p) = COMMA
      then and_then (consume COMMA p) (\<lambda>(_, p1).
           and_then (set_clause h p1) (\<lambda>(s, p2).
             comma_set_clauses h p2 (acc @ [s])))
      else Inr (acc, p))"
  by pat_completeness auto
termination
  by (relation "measure (\<lambda>(h, p, acc). psize p)")
     (auto dest!: consume_shrinks set_clause_shrinks)

declare comma_set_clauses.simps [simp del]

definition update_statement :: "'f float_ops \<Rightarrow> Parser \<Rightarrow> py_error + ('f stmt \<times> Parser)" where
  "update_statement h p =
     and_then (consume UPDATE p) (\<lambda>(_, p1).
     and_then (table_name p1) (\<lambda>(t, p2).
     and_then (consume SET p2) (\<lambda>(_, p3).
     and_then (set_clause h p3) (\<lambda>(s, p4).
     and_then (comma_set_clauses h p4 [s]) (\<lambda>(set_clauses, p5).
     and_then (where_clause h p5) (\<lambda>(w, p6).
       Inr (UpdateStmt t set_clauses w, p6)))))))"

definition delete_statement :: "'f float_ops \<Rightarrow> Parser \<Rightarrow> py_error + ('f stmt \<times> Parser)" where
  "delete_statement h p =
     and_then (consume DELETE p) (\<lambda>(_, p1).
     and_then (consume FROM p1) (\<lambda>(_, p2).
     and_then (table_name p2) (\<lambda>(t, p3).
     and_then (where_clause h p3) (\<lambda>(w, p4).
       Inr (DeleteStmt t w, p4)))))"

definition column_definition :: "Parser \<Rightarrow> py_error + ('f column_def_node \<times> Parser)" where
  "column_definition p =
     (if ttype (current_token p) = IDENTIFIER
      then (let name_node = Identifier (lexeme (current_token p)) in
            and_then (consume IDENTIFIER p) (\<lambda>(_, p1).
              if ttype (current_token p1) \<in> {INT_TYPE, TEXT, FLOAT, DATE}
              then (let data_type = ttype (current_token p1) in
                    and_then (consume data_type p1) (\<lambda>(_, p2).
                      Inr (ColumnDefNode name_node data_type, p2)))
              else Inl SyntaxError))
      else Inl SyntaxError)"

lemma column_definition_shrinks: "column_definition p = Inr (n, p') \<Longrightarrow> psize p' < psize p"
  by (auto simp: column_definition_def Let_def and_then_Inr split: if_splits
           dest!: consume_shrinks)

function comma_column_definitions ::
  "Parser \<Rightarrow> 'f column_def_node list \<Rightarrow> py_error + ('f column_def_node list \<times> Parser)" where
  "comma_column_definitions p acc =
     (if ttype (current_token p) = COMMA
      then and_then (consume COMMA p) (\<lambda>(_, p1).
           and_then (column_definition p1) (\<lambda>(c, p2).
             comma_column_definitions p2 (acc @ [c])))
      else Inr (acc, p))"
  by pat_completeness auto
termination
  by (relation "measure (\<lambda>(p, acc). psize p)")
     (auto dest!: consume_shrinks column_definition_shrinks)

declare comma_column_definitions.simps [simp del]

definition create_statement :: "Parser \<Rightarrow> py_error + ('f stmt \<times> Parser)" where
  "create_statement p =
     and_then (consume CREATE p) (\<lambda>(_, p1).
     and_then (consume TABLE p1) (\<lambda>(_, p2).
     and_then (table_name p2) (\<lambda>(t, p3).
     and_then (consume LEFT_PAREN p3) (\<lambda>(_, p4).
     and_then (column_definition p4) (\<lambda>(c, p5).
     and_then (comma_column_definitions p5 [c]) (\<lambda>(columns, p6).
     and_then (consume RIGHT_PAREN p6) (\<lambda>(_, p7).
       Inr (CreateStmt t columns, p7))))))))"

definition drop_statement :: "Parser \<Rightarrow> py_error + ('f stmt \<times> Parser)" where
  "drop_statement p =
     and_then (consume DROP p) (\<lambda>(_, p1).
     and_then (consume TABLE p1) (\<lambda>(_, p2).
     and_then (table_name p2) (\<lambda>(t, p3).
       Inr (DropStmt t, p3))))"

definition sql_statement :: "'f float_ops \<Rightarrow> Parser \<Rightarrow> py_error + ('f stmt \<times> Parser)" where
  "sql_statement h p =
     (if ttype (current_token p) = SELECT then select_statement h p
      else if ttype (current_token p) = INSERT then insert_statement h p
      else if ttype (current_token p) = UPDATE then update_statement h p
      else if ttype (current_token p) = DELETE then delete_statement h p
      else if ttype (current_token p) = CREATE then create_statement p
      else if ttype (current_token p) = DROP then drop_statement p
      else Inl SyntaxError)"

definition parse :: "'f float_ops \<Rightarrow> Parser \<Rightarrow> py_error + ('f stmt \<times> Parser)" where
  "parse h p = sql_statement h p"

text \<open>
  A query text is parsed as the test driver does: \<^verbatim>\<open>Parser(Lexer(sql)).parse()\<close>.
\<close>

definition parse_query :: "'f float_ops \<Rightarrow> string \<Rightarrow> py_error + 'f stmt" where
  "parse_query h sql = and_then (parse h (new_Parser (new_Lexer sql))) (\<lambda>(ast, p). Inr ast)"

section \<open>SQL generator\<close>

text \<open>\<^verbatim>\<open>str(n)\<close> for an integer: its decimal digits, after a minus sign when negative.\<close>

function str_of_nat :: "nat \<Rightarrow> string" where
  "str_of_nat n =
     (if n < 10 then [''0123456789'' ! n]
      else str_of_nat (n div 10) @ [''0123456789'' ! (n mod 10)])"
  by pat_completeness auto
termination
  by (relation "measure (\<lambda>n. n)") auto

declare str_of_nat.simps [simp del]

definition str_of_int :: "int \<Rightarrow> string" where
  "str_of_int i = (if i < 0 then ''-'' @ str_of_nat (nat (- i)) else str_of_nat (nat i))"

text \<open>\<^verbatim>\<open>str(v)\<close> for a stored value.\<close>

fun str_of_val :: "'f float_ops \<Rightarrow> 'f val \<Rightarrow> string" where
  "str_of_val h PyNone = ''None''"
| "str_of_val h (PyInt i) = str_of_int i"
| "str_of_val h (PyFloat x) = str_of_float h x"
| "str_of_val h (PyStr s) = s"

text \<open>\<^verbatim>\<open>sep.join(xs)\<close>.\<close>

fun join :: "string \<Rightarrow> string list \<Rightarrow> string" where
  "join sep [] = []"
| "join sep [x] = x"
| "join sep (x # y # ys) = x @ sep @ join sep (y # ys)"

text \<open>A loop that applies a step to each element in turn and stops at the first exception.\<close>

fun map_result :: "('a \<Rightarrow> 'e + 'b) \<Rightarrow> 'a list \<Rightarrow> 'e + 'b list" where
  "map_result f [] = Inr []"
| "map_result f (x # xs) =
     and_then (f x) (\<lambda>y. and_then (map_result f xs) (\<lambda>ys. Inr (y # ys)))"

fun token_type_to_string :: "TokenType \<Rightarrow> string" where
  "token_type_to_string SELECT = ''SELECT''"
| "token_type_to_string FROM = ''FROM''"
| "token_type_to_string WHERE = ''WHERE''"
| "token_type_to_string INSERT = ''INSERT''"
| "token_type_to_string INTO = ''INTO''"
| "token_type_to_string VALUES = ''VALUES''"
| "token_type_to_string UPDATE = ''UPDATE''"
| "token_type_to_string SET = ''SET''"
| "token_type_to_string DELETE = ''DELETE''"
| "token_type_to_string CREATE = ''CREATE''"
| "token_type_to_string TABLE = ''TABLE''"
| "token_type_to_string DROP = ''DROP''"
| "token_type_to_string JOIN = ''JOIN''"
| "token_type_to_string ON = ''ON''"
| "token_type_to_string AND = ''AND''"
| "token_type_to_string OR = ''OR''"
| "token_type_to_string NOT = ''NOT''"
| "token_type_to_string NULL = ''NULL''"
| "token_type_to_string INT_TYPE = ''INT''"
| "token_type_to_string TEXT = ''TEXT''"
| "token_type_to_string FLOAT = ''FLOAT''"
| "token_type_to_string DATE = ''DATE''"
| "token_type_to_string EQUALS = ''=''"
| "token_type_to_string GREATER = ''>''"
| "token_type_to_string LESS = ''<''"
| "token_type_to_string GREATER_EQUALS = ''>=''"
| "token_type_to_string LESS_EQUALS = ''<=''"
| "token_type_to_string NOT_EQUALS = ''!=''"
| "token_type_to_string PLUS = ''+''"
| "token_type_to_string MINUS = ''-''"
| "token_type_to_string ASTERISK = ''*''"
| "token_type_to_string DIVIDE = ''/''"
| "token_type_to_string COMMA = '',''"
| "token_type_to_string SEMICOLON = '';''"
| "token_type_to_string LEFT_PAREN = ''(''"
| "token_type_to_string RIGHT_PAREN = '')''"
| "token_type_to_string DOT = ''.''"
| "token_type_to_string IDENTIFIER = ''TokenType.IDENTIFIER''"
| "token_type_to_string INTEGER = ''TokenType.INTEGER''"
| "token_type_to_string FLOAT_LITERAL = ''TokenType.FLOAT_LITERAL''"
| "token_type_to_string STRING = ''TokenType.STRING''"
| "token_type_to_string EOF = ''TokenType.EOF''"
| "token_type_to_string ERROR = ''TokenType.ERROR''"

definition generate_literal :: "'f float_ops \<Rightarrow> TokenType \<Rightarrow> 'f val \<Rightarrow> py_error + string" where
  "generate_literal h value_type v =
     (if value_type = INTEGER then Inr (str_of_val h v)
      else if value_type = FLOAT_LITERAL then Inr (str_of_val h v)
      else if value_type = STRING then Inr ([CHR 0x27] @ str_of_val h v @ [CHR 0x27])
      else if value_type = NULL then Inr ''NULL''
      else Inl ValueError)"

text \<open>
  \<^verbatim>\<open>generate_expression\<close> raises \<^verbatim>\<open>ValueError\<close> on a node that is neither an identifier, a
  literal nor an expression, that is on a \<^verbatim>\<open>CONDITION\<close> node.
\<close>

fun generate_expression :: "'f float_ops \<Rightarrow> 'f node \<Rightarrow> py_error + string" where
  "generate_expression h (Identifier name) = Inr name"
| "generate_expression h (Literal value_type v) = generate_literal h value_type v"
| "generate_expression h (Expression l operator r) =
     and_then (generate_expression h l) (\<lambda>left.
     and_then (generate_expression h r) (\<lambda>right.
       Inr (left @ '' '' @ token_type_to_string operator @ '' '' @ right)))"
| "generate_expression h (Condition l operator r) = Inl ValueError"

fun generate_condition :: "'f float_ops \<Rightarrow> 'f node \<Rightarrow> py_error + string" where
  "generate_condition h (Condition l operator r) =
     and_then (generate_expression h l) (\<lambda>left.
     and_then (generate_expression h r) (\<lambda>right.
       Inr (left @ '' '' @ token_type_to_string operator @ '' '' @ right)))"
| "generate_condition h e = generate_expression h e"

definition generate_column_list :: "'f float_ops \<Rightarrow> 'f node list \<Rightarrow> py_error + string" where
  "generate_column_list h columns =
     (if columns = [] then Inr ''*''
      else and_then (map_result (generate_expression h) columns) (\<lambda>column_strs.
             Inr (join '', '' column_strs)))"

definition generate_table_list :: "string list \<Rightarrow> string" where
  "generate_table_list tables = join '', '' tables"

definition generate_join :: "'f float_ops \<Rightarrow> 'f join_node \<Rightarrow> py_error + string" where
  "generate_join h j =
     and_then (generate_condition h (join_condition j)) (\<lambda>c.
       Inr (''JOIN '' @ join_table j @ '' ON '' @ c))"

text \<open>The optional \<^verbatim>\<open>WHERE\<close> clause, appended by the generators of three statements.\<close>

definition generate_where :: "'f float_ops \<Rightarrow> 'f node option \<Rightarrow> py_error + string" where
  "generate_where h w =
     (case w of None \<Rightarrow> Inr []
      | Some c \<Rightarrow> and_then (generate_condition h c) (\<lambda>s. Inr ('' WHERE '' @ s)))"

definition generate_select ::
  "'f float_ops \<Rightarrow> 'f node list \<Rightarrow> string list \<Rightarrow> 'f join_node list \<Rightarrow> 'f node option
     \<Rightarrow> py_error + string" where
  "generate_select h columns tables joins w =
     and_then (generate_column_list h columns) (\<lambda>cs.
     and_then (map_result (generate_join h) joins) (\<lambda>js.
     and_then (generate_where h w) (\<lambda>ws.
       Inr (''SELECT '' @ cs @ '' FROM '' @ generate_table_list tables
            @ concat (map (\<lambda>j. '' '' @ j) js) @ ws))))"

definition generate_insert ::
  "'f float_ops \<Rightarrow> string \<Rightarrow> 'f node list \<Rightarrow> 'f node list \<Rightarrow> py_error + string" where
  "generate_insert h t columns vals =
     and_then (if columns \<noteq> []
               then and_then (generate_column_list h columns) (\<lambda>cs. Inr ('' ('' @ cs @ '')''))
               else Inr []) (\<lambda>cols.
     and_then (map_result (generate_expression h) vals) (\<lambda>value_strs.
       Inr (''INSERT INTO '' @ t @ cols @ '' VALUES ('' @ join '', '' value_strs @ '')'')))"

text \<open>
  The fields \<^verbatim>\<open>left\<close> and \<^verbatim>\<open>right\<close> of a node and the field \<^verbatim>\<open>name\<close>: reading a field
  that the node does not have raises \<^verbatim>\<open>KeyError\<close>.
\<close>

fun node_left :: "'f node \<Rightarrow> py_error + 'f node" where
  "node_left (Expression l operator r) = Inr l"
| "node_left (Condition l operator r) = Inr l"
| "node_left n = Inl KeyError"

fun node_right :: "'f node \<Rightarrow> py_error + 'f node" where
  "node_right (Expression l operator r) = Inr r"
| "node_right (Condition l operator r) = Inr r"
| "node_right n = Inl KeyError"

fun node_name :: "'f node \<Rightarrow> py_error + string" where
  "node_name (Identifier name) = Inr name"
| "node_name n = Inl KeyError"

definition generate_set_clause :: "'f float_ops \<Rightarrow> 'f node \<Rightarrow> py_error + string" where
  "generate_set_clause h set_clause_node =
     and_then (node_left set_clause_node) (\<lambda>l.
     and_then (generate_expression h l) (\<lambda>left.
     and_then (node_right set_clause_node) (\<lambda>r.
     and_then (generate_expression h r) (\<lambda>right.
       Inr (left @ '' = '' @ right)))))"

definition generate_update ::
  "'f float_ops \<Rightarrow> string \<Rightarrow> 'f node list \<Rightarrow> 'f node option \<Rightarrow> py_error + string" where
  "generate_update h t set_clauses w =
     and_then (map_result (generate_set_clause h) set_clauses) (\<lambda>set_strs.
     and_then (generate_where h w) (\<lambda>ws.
       Inr (''UPDATE '' @ t @ '' SET '' @ join '', '' set_strs @ ws)))"

definition generate_delete :: "'f float_ops \<Rightarrow> string \<Rightarrow> 'f node option \<Rightarrow> py_error + string"
  where
  "generate_delete h t w =
     and_then (generate_where h w) (\<lambda>ws. Inr (''DELETE FROM '' @ t @ ws))"

definition generate_column_definition ::
  "'f float_ops \<Rightarrow> 'f column_def_node \<Rightarrow> py_error + string" where
  "generate_column_definition h c =
     and_then (generate_expression h (cd_name c)) (\<lambda>sql.
       Inr (sql @ '' '' @ token_type_to_string (cd_data_type c)))"

definition generate_create ::
  "'f float_ops \<Rightarrow> string \<Rightarrow> 'f column_def_node list \<Rightarrow> py_error + string" where
  "generate_create h t columns =
     and_then (map_result (generate_column_definition h) columns) (\<lambda>column_strs.
       Inr (''CREATE TABLE '' @ t @ '' ('' @ join '', '' column_strs @ '')''))"

definition generate_drop :: "string \<Rightarrow> string" where
  "generate_drop t = ''DROP TABLE '' @ t"

fun generate_sql :: "'f float_ops \<Rightarrow> 'f stmt \<Rightarrow> py_error + string" where
  "generate_sql h (SelectStmt columns tables joins w) = generate_select h columns tables joins w"
| "generate_sql h (InsertStmt t columns vals) = generate_insert h t columns vals"
| "generate_sql h (UpdateStmt t set_clauses w) = generate_update h t set_clauses w"
| "generate_sql h (DeleteStmt t w) = generate_delete h t w"
| "generate_sql h (CreateStmt t columns) = generate_create h t columns"
| "generate_sql h (DropStmt t) = Inr (generate_drop t)"

section \<open>The shape of parsed trees\<close>

text \<open>A node is a connective when it is a condition with operator \<open>AND\<close> or \<open>OR\<close>.\<close>

fun connective :: "'f node \<Rightarrow> bool" where
  "connective (Condition l operator r) = (operator = AND \<or> operator = OR)"
| "connective n = False"

text \<open>
  A tree is right-associated when no connective in it has a connective as its left
  operand: a chain of connectives then nests to the right only.
\<close>

fun right_associated :: "'f node \<Rightarrow> bool" where
  "right_associated (Identifier name) = True"
| "right_associated (Literal value_type v) = True"
| "right_associated (Expression l operator r) = (right_associated l \<and> right_associated r)"
| "right_associated (Condition l operator r) =
     ((operator = AND \<or> operator = OR \<longrightarrow> \<not> connective l)
      \<and> right_associated l \<and> right_associated r)"

text \<open>The operator \<open>NOT\<close> occurs in a tree.\<close>

fun has_not :: "'f node \<Rightarrow> bool" where
  "has_not (Identifier name) = False"
| "has_not (Literal value_type v) = False"
| "has_not (Expression l operator r) = (operator = NOT \<or> has_not l \<or> has_not r)"
| "has_not (Condition l operator r) = (operator = NOT \<or> has_not l \<or> has_not r)"

text \<open>The expression and condition nodes of a statement, and its \<^verbatim>\<open>where_clause\<close>.\<close>

fun stmt_nodes :: "'f stmt \<Rightarrow> 'f node list" where
  "stmt_nodes (SelectStmt columns tables joins w) =
     columns @ map join_condition joins @ (case w of None \<Rightarrow> [] | Some c \<Rightarrow> [c])"
| "stmt_nodes (InsertStmt t columns vals) = columns @ vals"
| "stmt_nodes (UpdateStmt t set_clauses w) =
     set_clauses @ (case w of None \<Rightarrow> [] | Some c \<Rightarrow> [c])"
| "stmt_nodes (DeleteStmt t w) = (case w of None \<Rightarrow> [] | Some c \<Rightarrow> [c])"
| "stmt_nodes (CreateStmt t columns) = map cd_name columns"
| "stmt_nodes (DropStmt t) = []"

fun stmt_where :: "'f stmt \<Rightarrow> 'f node option" where
  "stmt_where (SelectStmt columns tables joins w) = w"
| "stmt_where (UpdateStmt t set_clauses w) = w"
| "stmt_where (DeleteStmt t w) = w"
| "stmt_where s = None"

text \<open>What every node built by the parser satisfies.\<close>

definition parsed_shape :: "'f node \<Rightarrow> bool" where
  "parsed_shape n = (right_associated n \<and> \<not> has_not n)"

lemma literal_shape:
  "literal h p = Inr (n, p') \<Longrightarrow> parsed_shape n \<and> \<not> connective n"
  by (auto simp: literal_def Let_def and_then_Inr parsed_shape_def split: if_splits)

lemma expression_shape:
  "expression h p = Inr (n, p') \<Longrightarrow> parsed_shape n \<and> \<not> connective n"
proof (induction h p arbitrary: n p' rule: expression.induct)
  case (1 h p)
  let ?ty = "ttype (current_token p)"
  show ?case
  proof (cases "?ty = LEFT_PAREN")
    case True
    then have a: "?ty \<noteq> IDENTIFIER" and b: "?ty \<notin> {INTEGER, FLOAT_LITERAL, STRING, NULL}"
      by simp_all
    from "1.prems" True obtain t1 p1 p2 t3 where
      c1: "consume LEFT_PAREN p = Inr (t1, p1)" and e: "expression h p1 = Inr (n, p2)"
      by (subst (asm) expression.simps) (auto simp: and_then_Inr)
    from "1.IH"[OF a b True c1 refl e] show ?thesis .
  next
    case False
    with "1.prems" show ?thesis
      by (subst (asm) expression.simps)
         (auto simp: Let_def and_then_Inr parsed_shape_def split: if_splits dest!: literal_shape)
  qed
qed

lemma operand_shape:
  assumes "expression h p = Inr (node, p1)"
    and "(if ttype (current_token p1) \<in>
             {EQUALS, NOT_EQUALS, GREATER, LESS, GREATER_EQUALS, LESS_EQUALS}
        then (let operator_type = ttype (current_token p1) in
              and_then (consume operator_type p1) (\<lambda>(_, p2).
              and_then (expression h p2) (\<lambda>(right, p3).
                Inr (Condition node operator_type right, p3))))
        else Inr (node, p1)) = Inr (node', p4)"
  shows "parsed_shape node' \<and> \<not> connective node'"
proof (cases "ttype (current_token p1) \<in>
             {EQUALS, NOT_EQUALS, GREATER, LESS, GREATER_EQUALS, LESS_EQUALS}")
  case False
  with assms expression_shape[OF assms(1)] show ?thesis by simp
next
  case True
  with assms(2) obtain t p2 right where
    "expression h p2 = Inr (right, p4)" "node' = Condition node (ttype (current_token p1)) right"
    by (auto simp: Let_def and_then_Inr)
  with expression_shape[OF assms(1)] expression_shape[of h p2 right p4] True
  show ?thesis by (auto simp: parsed_shape_def)
qed

lemma condition_shape:
  "condition h p = Inr (n, p') \<Longrightarrow>
     parsed_shape n \<and> ttype (current_token p') \<notin> {AND, OR}"
  "condition_loop h node p = Inr (n, p') \<Longrightarrow> parsed_shape node \<Longrightarrow> \<not> connective node \<Longrightarrow>
     parsed_shape n \<and> ttype (current_token p') \<notin> {AND, OR}"
proof (induction h p and h node p arbitrary: n p' and n p' rule: condition_condition_loop.induct)
  case (1 h p)
  from "1.prems" obtain node p1 node' p4 where
    e: "expression h p = Inr (node, p1)"
    and o: "(if ttype (current_token p1) \<in>
             {EQUALS, NOT_EQUALS, GREATER, LESS, GREATER_EQUALS, LESS_EQUALS}
        then (let operator_type = ttype (current_token p1) in
              and_then (consume operator_type p1) (\<lambda>(_, p2).
              and_then (expression h p2) (\<lambda>(right, p3).
                Inr (Condition node operator_type right, p3))))
        else Inr (node, p1)) = Inr (node', p4)"
    and l: "condition_loop h node' p4 = Inr (n, p')"
    by (auto simp: condition.simps and_then_Inr)
  from operand_shape[OF e o] have "parsed_shape node'" "\<not> connective node'" by simp_all
  from "1.IH"[OF e refl o refl l this] show ?case .
next
  case (2 h node p)
  show ?case
  proof (cases "ttype (current_token p) \<in> {AND, OR}")
    case False
    with "2.prems" show ?thesis by (simp add: condition_loop.simps)
  next
    case True
    let ?op = "ttype (current_token p)"
    from True "2.prems"(1) obtain t p1 right p2 where
      c: "consume ?op p = Inr (t, p1)"
      and r: "condition h p1 = Inr (right, p2)"
      and l: "condition_loop h (Condition node ?op right) p2 = Inr (n, p')"
      by (auto simp: condition_loop.simps and_then_Inr Let_def)
    from "2.IH"(1)[OF True refl c refl r]
    have rs: "parsed_shape right" and stop: "ttype (current_token p2) \<notin> {AND, OR}" by simp_all
    from l stop have "n = Condition node ?op right" "p' = p2"
      by (simp_all add: condition_loop.simps)
    with rs stop "2.prems"(2,3) True show ?thesis by (auto simp: parsed_shape_def)
  qed
qed

lemma comma_expressions_shape:
  "comma_expressions h p acc = Inr (ns, p') \<Longrightarrow> \<forall>n \<in> set acc. parsed_shape n \<Longrightarrow>
     \<forall>n \<in> set ns. parsed_shape n"
proof (induction h p acc arbitrary: ns p' rule: comma_expressions.induct)
  case (1 h p acc)
  show ?case
  proof (cases "ttype (current_token p) = COMMA")
    case False
    with "1.prems" show ?thesis by (simp add: comma_expressions.simps)
  next
    case True
    with "1.prems"(1) obtain t p1 e p2 where
      c: "consume COMMA p = Inr (t, p1)" and e: "expression h p1 = Inr (e, p2)"
      and l: "comma_expressions h p2 (acc @ [e]) = Inr (ns, p')"
      by (auto simp: comma_expressions.simps and_then_Inr)
    from expression_shape[OF e] "1.prems"(2) have "\<forall>n \<in> set (acc @ [e]). parsed_shape n" by simp
    from "1.IH"[OF True c refl e refl l this] show ?thesis .
  qed
qed

lemma column_list_shape:
  assumes "column_list h p = Inr (ns, p')"
  shows "\<forall>n \<in> set ns. parsed_shape n"
proof (cases "ttype (current_token p) = ASTERISK")
  case True
  with assms show ?thesis
    by (auto simp: column_list_def and_then_Inr parsed_shape_def)
next
  case False
  with assms obtain e p1 where e: "expression h p = Inr (e, p1)"
    and l: "comma_expressions h p1 [e] = Inr (ns, p')"
    by (auto simp: column_list_def and_then_Inr)
  from expression_shape[OF e] have "\<forall>n \<in> set [e]. parsed_shape n" by simp
  from comma_expressions_shape[OF l this] show ?thesis .
qed

lemma join_clause_shape:
  "join_clause h p = Inr (j, p') \<Longrightarrow> parsed_shape (join_condition j)"
  by (auto simp: join_clause_def and_then_Inr dest!: condition_shape(1))

lemma join_loop_shape:
  "join_loop h p acc = Inr (js, p') \<Longrightarrow> \<forall>j \<in> set acc. parsed_shape (join_condition j) \<Longrightarrow>
     \<forall>j \<in> set js. parsed_shape (join_condition j)"
proof (induction h p acc arbitrary: js p' rule: join_loop.induct)
  case (1 h p acc)
  show ?case
  proof (cases "ttype (current_token p) = JOIN")
    case False
    with "1.prems" show ?thesis by (simp add: join_loop.simps)
  next
    case True
    with "1.prems"(1) obtain j p1 where
      c: "join_clause h p = Inr (j, p1)" and l: "join_loop h p1 (acc @ [j]) = Inr (js, p')"
      by (auto simp: join_loop.simps and_then_Inr)
    from join_clause_shape[OF c] "1.prems"(2)
    have "\<forall>j \<in> set (acc @ [j]). parsed_shape (join_condition j)" by simp
    from "1.IH"[OF True c refl l this] show ?thesis .
  qed
qed

lemma where_clause_shape:
  "where_clause h p = Inr (w, p') \<Longrightarrow> \<forall>c \<in> set (case w of None \<Rightarrow> [] | Some c \<Rightarrow> [c]). parsed_shape c"
  by (auto simp: where_clause_def and_then_Inr split: if_splits dest!: condition_shape(1))

lemma set_clause_shape: "set_clause h p = Inr (n, p') \<Longrightarrow> parsed_shape n"
  by (auto simp: set_clause_def Let_def and_then_Inr parsed_shape_def split: if_splits
           dest!: expression_shape)

lemma comma_set_clauses_shape:
  "comma_set_clauses h p acc = Inr (ns, p') \<Longrightarrow> \<forall>n \<in> set acc. parsed_shape n \<Longrightarrow>
     \<forall>n \<in> set ns. parsed_shape n"
proof (induction h p acc arbitrary: ns p' rule: comma_set_clauses.induct)
  case (1 h p acc)
  show ?case
  proof (cases "ttype (current_token p) = COMMA")
    case False
    with "1.prems" show ?thesis by (simp add: comma_set_clauses.simps)
  next
    case True
    with "1.prems"(1) obtain t p1 e p2 where
      c: "consume COMMA p = Inr (t, p1)" and e: "set_clause h p1 = Inr (e, p2)"
      and l: "comma_set_clauses h p2 (acc @ [e]) = Inr (ns, p')"
      by (auto simp: comma_set_clauses.simps and_then_Inr)
    from set_clause_shape[OF e] "1.prems"(2) have "\<forall>n \<in> set (acc @ [e]). parsed_shape n" by simp
    from "1.IH"[OF True c refl e refl l this] show ?thesis .
  qed
qed

lemma column_definition_shape:
  "column_definition p = Inr (c, p') \<Longrightarrow> parsed_shape (cd_name c)"
  by (auto simp: column_definition_def Let_def and_then_Inr parsed_shape_def split: if_splits)

lemma comma_column_definitions_shape:
  "comma_column_definitions p acc = Inr (cs, p') \<Longrightarrow> \<forall>c \<in> set acc. parsed_shape (cd_name c) \<Longrightarrow>
     \<forall>c \<in> set cs. parsed_shape (cd_name c)"
proof (induction p acc arbitrary: cs p' rule: comma_column_definitions.induct)
  case (1 p acc)
  show ?case
  proof (cases "ttype (current_token p) = COMMA")
    case False
    with "1.prems" show ?thesis by (simp add: comma_column_definitions.simps)
  next
    case True
    with "1.prems"(1) obtain t p1 e p2 where
      c: "consume COMMA p = Inr (t, p1)" and e: "column_definition p1 = Inr (e, p2)"
      and l: "comma_column_definitions p2 (acc @ [e]) = Inr (cs, p')"
      by (auto simp: comma_column_definitions.simps and_then_Inr)
    from column_definition_shape[OF e] "1.prems"(2)
    have "\<forall>c \<in> set (acc @ [e]). parsed_shape (cd_name c)" by simp
    from "1.IH"[OF True c refl e refl l this] show ?thesis .
  qed
qed

lemma select_statement_shape:
  assumes "select_statement h p = Inr (ast, p')"
  shows "\<forall>n \<in> set (stmt_nodes ast). parsed_shape n"
proof -
  from assms obtain columns p1 p2 joins p4 p5 w tables where
    c: "column_list h p1 = Inr (columns, p2)" and j: "join_loop h p4 [] = Inr (joins, p5)"
    and w: "where_clause h p5 = Inr (w, p')" and a: "ast = SelectStmt columns tables joins w"
    by (auto simp: select_statement_def and_then_Inr)
  from join_loop_shape[OF j] have "\<forall>j \<in> set joins. parsed_shape (join_condition j)" by simp
  with column_list_shape[OF c] where_clause_shape[OF w] a show ?thesis by auto
qed

lemma insert_statement_shape:
  assumes "insert_statement h p = Inr (ast, p')"
  shows "\<forall>n \<in> set (stmt_nodes ast). parsed_shape n"
proof -
  from assms obtain t columns p3 p7 e p9 p10 vals p11 where
    c: "(if ttype (current_token p3) = LEFT_PAREN
        then and_then (consume LEFT_PAREN p3) (\<lambda>(_, p4).
             and_then (column_list h p4) (\<lambda>(columns, p5).
             and_then (consume RIGHT_PAREN p5) (\<lambda>(_, p6). Inr (columns, p6))))
        else Inr ([], p3)) = Inr (columns, p7)"
    and e: "expression h p9 = Inr (e, p10)"
    and l: "comma_expressions h p10 [e] = Inr (vals, p11)"
    and a: "ast = InsertStmt t columns vals"
    by (auto simp: insert_statement_def and_then_Inr)
  from c have "\<forall>n \<in> set columns. parsed_shape n"
    by (auto simp: and_then_Inr split: if_splits dest!: column_list_shape)
  moreover from expression_shape[OF e] have "\<forall>n \<in> set [e]. parsed_shape n" by simp
  from comma_expressions_shape[OF l this] have "\<forall>n \<in> set vals. parsed_shape n" .
  ultimately show ?thesis using a by auto
qed

lemma update_statement_shape:
  assumes "update_statement h p = Inr (ast, p')"
  shows "\<forall>n \<in> set (stmt_nodes ast). parsed_shape n"
proof -
  from assms obtain t p3 s p4 set_clauses p5 w where
    s: "set_clause h p3 = Inr (s, p4)"
    and l: "comma_set_clauses h p4 [s] = Inr (set_clauses, p5)"
    and w: "where_clause h p5 = Inr (w, p')" and a: "ast = UpdateStmt t set_clauses w"
    by (auto simp: update_statement_def and_then_Inr)
  from set_clause_shape[OF s] have "\<forall>n \<in> set [s]. parsed_shape n" by simp
  from comma_set_clauses_shape[OF l this] where_clause_shape[OF w] a show ?thesis by auto
qed

lemma delete_statement_shape:
  assumes "delete_statement h p = Inr (ast, p')"
  shows "\<forall>n \<in> set (stmt_nodes ast). parsed_shape n"
proof -
  from assms obtain t p3 w where
    w: "where_clause h p3 = Inr (w, p')" and a: "ast = DeleteStmt t w"
    by (auto simp: delete_statement_def and_then_Inr)
  from where_clause_shape[OF w] a show ?thesis by auto
qed

lemma create_statement_shape:
  assumes "create_statement p = Inr (ast, p')"
  shows "\<forall>n \<in> set (stmt_nodes ast). parsed_shape n"
proof -
  from assms obtain t p4 c p5 columns p6 where
    c: "column_definition p4 = Inr (c, p5)"
    and l: "comma_column_definitions p5 [c] = Inr (columns, p6)"
    and a: "ast = CreateStmt t columns"
    by (auto simp: create_statement_def and_then_Inr)
  from column_definition_shape[OF c] have "\<forall>c \<in> set [c]. parsed_shape (cd_name c)" by simp
  from comma_column_definitions_shape[OF l this] a show ?thesis by auto
qed

lemma drop_statement_shape:
  assumes "drop_statement p = Inr (ast, p')"
  shows "\<forall>n \<in> set (stmt_nodes ast). parsed_shape n"
  using assms by (auto simp: drop_statement_def and_then_Inr)

lemma parse_query_shape:
  assumes "parse_query h sql = Inr ast"
  shows "\<forall>n \<in> set (stmt_nodes ast). parsed_shape n"
proof -
  from assms obtain p' where "sql_statement h (new_Parser (new_Lexer sql)) = Inr (ast, p')"
    by (auto simp: parse_query_def parse_def and_then_Inr)
  then show ?thesis
    unfolding sql_statement_def
    by (auto split: if_splits
             dest: select_statement_shape insert_statement_shape update_statement_shape
                   delete_statement_shape create_statement_shape drop_statement_shape)
qed

lemma stmt_where_nodes: "stmt_where ast = Some c \<Longrightarrow> c \<in> set (stmt_nodes ast)"
  by (cases ast) auto

section \<open>Python's operators on stored values\<close>

text \<open>Text is ordered lexicographically by character code.\<close>

fun str_less :: "string \<Rightarrow> string \<Rightarrow> bool" where
  "str_less [] [] = False"
| "str_less [] (y # ys) = True"
| "str_less (x # xs) [] = False"
| "str_less (x # xs) (y # ys) = ((of_char x :: nat) < of_char y \<or> (x = y \<and> str_less xs ys))"

text \<open>
  The comparison operators, given by their token kind. Two integers and two texts are
  compared here; a number with a float is left to the parameter. \<^verbatim>\<open>==\<close> and \<^verbatim>\<open>!=\<close> are
  defined on all values; the four order operators raise \<^verbatim>\<open>TypeError\<close> on \<^verbatim>\<open>None\<close> and on a
  number with a text.
\<close>

fun compare_values :: "'f float_ops \<Rightarrow> TokenType \<Rightarrow> 'f val \<Rightarrow> 'f val \<Rightarrow> py_error + bool" where
  "compare_values h operator (PyInt a) (PyInt b) =
     Inr (if operator = EQUALS then a = b
          else if operator = NOT_EQUALS then a \<noteq> b
          else if operator = GREATER then a > b
          else if operator = LESS then a < b
          else if operator = GREATER_EQUALS then a \<ge> b
          else a \<le> b)"
| "compare_values h operator (PyStr a) (PyStr b) =
     Inr (if operator = EQUALS then a = b
          else if operator = NOT_EQUALS then a \<noteq> b
          else if operator = GREATER then str_less b a
          else if operator = LESS then str_less a b
          else if operator = GREATER_EQUALS then \<not> str_less a b
          else \<not> str_less b a)"
| "compare_values h operator (PyFloat a) (PyFloat b) =
     Inr (float_compare h operator (PyFloat a) (PyFloat b))"
| "compare_values h operator (PyInt a) (PyFloat b) =
     Inr (float_compare h operator (PyInt a) (PyFloat b))"
| "compare_values h operator (PyFloat a) (PyInt b) =
     Inr (float_compare h operator (PyFloat a) (PyInt b))"
| "compare_values h operator PyNone PyNone =
     (if operator = EQUALS then Inr True
      else if operator = NOT_EQUALS then Inr False
      else Inl TypeError)"
| "compare_values h operator a b =
     (if operator = EQUALS then Inr False
      else if operator = NOT_EQUALS then Inr True
      else Inl TypeError)"

text \<open>
  The arithmetic operators \<^verbatim>\<open>+\<close>, \<^verbatim>\<open>-\<close>, \<^verbatim>\<open>*\<close>, \<^verbatim>\<open>/\<close>, given by their token kind: on two
  integers, on texts (\<^verbatim>\<open>+\<close> joins two texts, \<^verbatim>\<open>*\<close> repeats a text), and \<^verbatim>\<open>TypeError\<close>
  otherwise; a number with a float, and the division of two integers, which gives a
  float, are left to the parameter.
\<close>

fun arith_values :: "'f float_ops \<Rightarrow> TokenType \<Rightarrow> 'f val \<Rightarrow> 'f val \<Rightarrow> py_error + 'f val" where
  "arith_values h operator (PyInt a) (PyInt b) =
     (if operator = PLUS then Inr (PyInt (a + b))
      else if operator = MINUS then Inr (PyInt (a - b))
      else if operator = ASTERISK then Inr (PyInt (a * b))
      else float_arith h operator (PyInt a) (PyInt b))"
| "arith_values h operator (PyFloat a) (PyFloat b) = float_arith h operator (PyFloat a) (PyFloat b)"
| "arith_values h operator (PyInt a) (PyFloat b) = float_arith h operator (PyInt a) (PyFloat b)"
| "arith_values h operator (PyFloat a) (PyInt b) = float_arith h operator (PyFloat a) (PyInt b)"
| "arith_values h operator (PyStr a) (PyStr b) =
     (if operator = PLUS then Inr (PyStr (a @ b)) else Inl TypeError)"
| "arith_values h operator (PyStr a) (PyInt b) =
     (if operator = ASTERISK then Inr (PyStr (concat (replicate (nat b) a))) else Inl TypeError)"
| "arith_values h operator (PyInt a) (PyStr b) =
     (if operator = ASTERISK then Inr (PyStr (concat (replicate (nat a) b))) else Inl TypeError)"
| "arith_values h operator a b = Inl TypeError"

text \<open>\<^verbatim>\<open>bool(v)\<close>.\<close>

fun truth :: "'f float_ops \<Rightarrow> 'f val \<Rightarrow> bool" where
  "truth h PyNone = False"
| "truth h (PyInt i) = (i \<noteq> 0)"
| "truth h (PyFloat x) = bool_of_float h x"
| "truth h (PyStr s) = (s \<noteq> [])"

section \<open>Tables and the database\<close>

text \<open>
  The attribute \<^verbatim>\<open>name\<close> of a \<^verbatim>\<open>ColumnDef\<close> is annotated \<^verbatim>\<open>str\<close>, and a caller of
  \<^verbatim>\<open>create_table\<close> passes a text. \<^verbatim>\<open>_execute_create\<close> passes the field \<^verbatim>\<open>name\<close> of the
  \<^verbatim>\<open>COLUMN_DEF\<close> node, which the parser sets to an identifier node. The model has both.
\<close>

datatype 'f name_obj = NameStr string | NameNode "'f node"

record 'f ColumnDef =
  col_name :: "'f name_obj"
  col_type :: TokenType

record 'f Table =
  name :: string
  title :: string
  columns :: "'f ColumnDef list"
  rows :: "'f val list list"

text \<open>The dictionary \<^verbatim>\<open>tables\<close> maps the name in lower case to the table.\<close>

record 'f Database =
  tables :: "string \<Rightarrow> 'f Table option"

definition new_Database :: "'f Database" where
  "new_Database = \<lparr>tables = Map.empty\<rparr>"

definition new_Table :: "string \<Rightarrow> 'f ColumnDef list \<Rightarrow> string option \<Rightarrow> 'f Table" where
  "new_Table nm cols ttl =
     \<lparr>name = nm,
      title = (case ttl of None \<Rightarrow> nm | Some s \<Rightarrow> if s \<noteq> [] then s else nm),
      columns = cols, rows = []\<rparr>"

text \<open>
  What the executor reports when it returns \<^verbatim>\<open>False\<close>, after printing the message.
\<close>

datatype failure =
    ColumnCountMismatch
  | TypeMismatch
  | TableExists string
  | TableDoesNotExist string
  | TableNotFound string
  | ColumnNotFound string
  | NoTableSpecified

definition validate_type :: "'f val \<Rightarrow> TokenType \<Rightarrow> bool" where
  "validate_type v expected_type =
     (case v of
        PyNone \<Rightarrow> True
      | PyInt i \<Rightarrow> expected_type = INT_TYPE \<or> expected_type = FLOAT
      | PyFloat x \<Rightarrow> expected_type = FLOAT
      | PyStr s \<Rightarrow> expected_type = TEXT \<or> expected_type = DATE)"

definition add_row :: "'f Table \<Rightarrow> 'f val list \<Rightarrow> failure + 'f Table" where
  "add_row t vals =
     (if length vals \<noteq> length (columns t) then Inl ColumnCountMismatch
      else if \<not> list_all (\<lambda>(v, col). validate_type v (col_type col)) (zip vals (columns t))
      then Inl TypeMismatch
      else Inr (t\<lparr>rows := rows t @ [vals]\<rparr>))"

text \<open>
  \<^verbatim>\<open>get_column_index\<close>: the loop over the columns from index \<open>i\<close> on; \<^verbatim>\<open>col.name.lower()\<close>
  raises \<^verbatim>\<open>AttributeError\<close> on a name that is a node. The result \<open>- 1\<close> is the source's
  value for a name that no column has.
\<close>

fun column_index_from :: "'f ColumnDef list \<Rightarrow> string \<Rightarrow> nat \<Rightarrow> py_error + int" where
  "column_index_from [] column_name i = Inr (- 1)"
| "column_index_from (col # cols) column_name i =
     (case col_name col of
        NameNode n \<Rightarrow> Inl AttributeError
      | NameStr s \<Rightarrow>
          if lower s = lower column_name then Inr (int i)
          else column_index_from cols column_name (Suc i))"

definition get_column_index :: "'f Table \<Rightarrow> string \<Rightarrow> py_error + int" where
  "get_column_index t column_name = column_index_from (columns t) column_name 0"

definition create_table ::
  "'f Database \<Rightarrow> string \<Rightarrow> 'f ColumnDef list \<Rightarrow> string option \<Rightarrow> failure + 'f Database" where
  "create_table db nm cols ttl =
     (if tables db (lower nm) \<noteq> None then Inl (TableExists nm)
      else Inr (db\<lparr>tables := (tables db)(lower nm \<mapsto> new_Table nm cols ttl)\<rparr>))"

definition drop_table :: "'f Database \<Rightarrow> string \<Rightarrow> failure + 'f Database" where
  "drop_table db nm =
     (if tables db (lower nm) = None then Inl (TableDoesNotExist nm)
      else Inr (db\<lparr>tables := (tables db)(lower nm := None)\<rparr>))"

definition get_table :: "'f Database \<Rightarrow> string \<Rightarrow> 'f Table option" where
  "get_table db nm = tables db (lower nm)"

section \<open>Evaluation\<close>

text \<open>\<^verbatim>\<open>row[col_idx]\<close> for an index that is not negative.\<close>

definition row_get :: "'f val list \<Rightarrow> int \<Rightarrow> py_error + 'f val" where
  "row_get r col_idx = (if nat col_idx < length r then Inr (r ! nat col_idx) else Inl IndexError)"

text \<open>
  \<^verbatim>\<open>_evaluate_expression\<close>. The test \<^verbatim>\<open>if table and row\<close> holds for a table and a row that
  is not empty. For the operator \<open>DOT\<close> the source computes \<^verbatim>\<open>left_value + "."\<close> before it
  evaluates the right operand. A node of another type gives \<^verbatim>\<open>None\<close>.
\<close>

fun evaluate_expression ::
  "'f float_ops \<Rightarrow> 'f node \<Rightarrow> 'f Table option \<Rightarrow> 'f val list option \<Rightarrow> py_error + 'f val" where
  "evaluate_expression h (Identifier nm) tbl row =
     (case tbl of
        None \<Rightarrow> Inr (PyStr nm)
      | Some t \<Rightarrow>
         (case row of
            None \<Rightarrow> Inr (PyStr nm)
          | Some r \<Rightarrow>
              if r \<noteq> []
              then and_then (get_column_index t nm) (\<lambda>col_idx.
                     if col_idx \<noteq> - 1 then row_get r col_idx else Inr (PyStr nm))
              else Inr (PyStr nm)))"
| "evaluate_expression h (Literal value_type v) tbl row = Inr v"
| "evaluate_expression h (Expression l operator r) tbl row =
     and_then (evaluate_expression h l tbl row) (\<lambda>left_value.
       if operator = DOT
       then and_then (arith_values h PLUS left_value (PyStr ''.'')) (\<lambda>s.
            and_then (evaluate_expression h r tbl row) (\<lambda>right_value.
              arith_values h PLUS s right_value))
       else and_then (evaluate_expression h r tbl row) (\<lambda>right_value.
              if operator = PLUS \<or> operator = MINUS \<or> operator = ASTERISK \<or> operator = DIVIDE
              then arith_values h operator left_value right_value
              else Inr PyNone))"
| "evaluate_expression h (Condition l operator r) tbl row = Inr PyNone"

text \<open>
  \<^verbatim>\<open>_evaluate_condition\<close>. \<^verbatim>\<open>and\<close> and \<^verbatim>\<open>or\<close> do not evaluate their right operand when the
  left one decides. A comparison with an operator that is not one of the six gives
  \<^verbatim>\<open>False\<close>.
\<close>

fun evaluate_condition ::
  "'f float_ops \<Rightarrow> 'f node \<Rightarrow> 'f Table \<Rightarrow> 'f val list \<Rightarrow> py_error + bool" where
  "evaluate_condition h (Condition l operator r) t row =
     (if operator = AND
      then and_then (evaluate_condition h l t row) (\<lambda>b.
             if b then evaluate_condition h r t row else Inr False)
      else if operator = OR
      then and_then (evaluate_condition h l t row) (\<lambda>b.
             if b then Inr True else evaluate_condition h r t row)
      else if operator = NOT
      then and_then (evaluate_condition h r t row) (\<lambda>b. Inr (\<not> b))
      else and_then (evaluate_expression h l (Some t) (Some row)) (\<lambda>left_value.
           and_then (evaluate_expression h r (Some t) (Some row)) (\<lambda>right_value.
             if operator \<in> {EQUALS, NOT_EQUALS, GREATER, LESS, GREATER_EQUALS, LESS_EQUALS}
             then compare_values h operator left_value right_value
             else Inr False)))"
| "evaluate_condition h e t row =
     and_then (evaluate_expression h e (Some t) (Some row)) (\<lambda>v. Inr (truth h v))"

section \<open>Executor\<close>

text \<open>
  A statement ends in one of three ways: the executor returns \<^verbatim>\<open>True\<close> after printing its
  result, it returns \<^verbatim>\<open>False\<close> after printing an error message, or an exception leaves it.
  The result of the model is the database afterwards together with \<open>Inr\<close> of what was
  printed, or \<open>Inl\<close> of the failure or the exception.
\<close>

datatype abort = Returned_False failure | Raised py_error

datatype 'f printed =
    Selected "string list" "'f val list list"
  | Inserted
  | Updated nat
  | Deleted nat
  | Created string
  | Dropped string

definition raising :: "py_error + 'a \<Rightarrow> abort + 'a" where
  "raising m = (case m of Inl e \<Rightarrow> Inl (Raised e) | Inr x \<Rightarrow> Inr x)"

definition failing :: "failure + 'a \<Rightarrow> abort + 'a" where
  "failing m = (case m of Inl f \<Rightarrow> Inl (Returned_False f) | Inr x \<Rightarrow> Inr x)"

text \<open>
  The loop that resolves the column nodes of a \<^verbatim>\<open>SELECT\<close> or of an \<^verbatim>\<open>INSERT\<close> to indices:
  it reads the field \<^verbatim>\<open>name\<close> of each node and returns \<^verbatim>\<open>False\<close> at the first name that
  no column has.
\<close>

fun resolve_columns :: "'f Table \<Rightarrow> 'f node list \<Rightarrow> abort + int list" where
  "resolve_columns t [] = Inr []"
| "resolve_columns t (col_node # rest) =
     and_then (raising (node_name col_node)) (\<lambda>nm.
     and_then (raising (get_column_index t nm)) (\<lambda>col_idx.
       if col_idx = - 1 then Inl (Returned_False (ColumnNotFound nm))
       else and_then (resolve_columns t rest) (\<lambda>idxs. Inr (col_idx # idxs))))"

text \<open>The test \<^verbatim>\<open>not where_clause or _evaluate_condition(where_clause, table, row)\<close>.\<close>

definition row_matches ::
  "'f float_ops \<Rightarrow> 'f node option \<Rightarrow> 'f Table \<Rightarrow> 'f val list \<Rightarrow> py_error + bool" where
  "row_matches h w t row = (case w of None \<Rightarrow> Inr True | Some c \<Rightarrow> evaluate_condition h c t row)"

fun filter_rows ::
  "'f float_ops \<Rightarrow> 'f node option \<Rightarrow> 'f Table \<Rightarrow> 'f val list list \<Rightarrow> py_error + 'f val list list"
  where
  "filter_rows h w t [] = Inr []"
| "filter_rows h w t (row # rest) =
     and_then (row_matches h w t row) (\<lambda>m.
     and_then (filter_rows h w t rest) (\<lambda>filtered.
       Inr (if m then row # filtered else filtered)))"

text \<open>
  \<^verbatim>\<open>print_table\<close> on the filtered rows: the names of the selected columns, joined as
  texts, and of each row the values at the selected indices.
\<close>

fun header_names :: "'f name_obj list \<Rightarrow> py_error + string list" where
  "header_names [] = Inr []"
| "header_names (NameStr s # rest) = and_then (header_names rest) (\<lambda>ss. Inr (s # ss))"
| "header_names (NameNode n # rest) = Inl TypeError"

definition print_table ::
  "'f Table \<Rightarrow> 'f val list list \<Rightarrow> int list \<Rightarrow> py_error + (string list \<times> 'f val list list)" where
  "print_table t rws selected =
     (let cols = (if selected = [] then map int [0..<length (columns t)] else selected) in
      and_then (map_result (\<lambda>i. if nat i < length (columns t)
                                then Inr (col_name (columns t ! nat i))
                                else Inl IndexError) cols) (\<lambda>names.
      and_then (header_names names) (\<lambda>header.
      and_then (map_result (\<lambda>row. map_result (row_get row) cols) rws) (\<lambda>row_data.
        Inr (header, row_data)))))"

definition execute_select ::
  "'f float_ops \<Rightarrow> 'f Database \<Rightarrow> 'f node list \<Rightarrow> string list \<Rightarrow> 'f node option
     \<Rightarrow> 'f Database \<times> (abort + 'f printed)" where
  "execute_select h db cols tbls w =
     (db,
      case tbls of
        [] \<Rightarrow> Inl (Returned_False NoTableSpecified)
      | tn # _ \<Rightarrow>
         (case get_table db tn of
            None \<Rightarrow> Inl (Returned_False (TableNotFound tn))
          | Some t \<Rightarrow>
              and_then (case cols of [] \<Rightarrow> Inl (Raised IndexError)
                        | c # _ \<Rightarrow> raising (node_name c)) (\<lambda>first.
              and_then (if first = ''*'' then Inr (map int [0..<length (columns t)])
                        else resolve_columns t cols) (\<lambda>selected_columns.
              and_then (raising (filter_rows h w t (rows t))) (\<lambda>filtered_rows.
              and_then (raising (print_table t filtered_rows selected_columns))
                (\<lambda>(header, row_data). Inr (Selected header row_data)))))))"

text \<open>
  The loop of a named \<^verbatim>\<open>INSERT\<close> that places the values: the \<open>i\<close>-th value is evaluated,
  without table and row, and stored at the index of the \<open>i\<close>-th named column, as long as
  there is an \<open>i\<close>-th value.
\<close>

fun fill_values ::
  "'f float_ops \<Rightarrow> int list \<Rightarrow> 'f node list \<Rightarrow> nat \<Rightarrow> 'f val list \<Rightarrow> py_error + 'f val list"
  where
  "fill_values h [] vals i buf = Inr buf"
| "fill_values h (col_idx # rest) vals i buf =
     (if i < length vals
      then and_then (evaluate_expression h (vals ! i) None None) (\<lambda>v.
             fill_values h rest vals (Suc i) (buf[nat col_idx := v]))
      else fill_values h rest vals (Suc i) buf)"

definition insert_values ::
  "'f float_ops \<Rightarrow> 'f Table \<Rightarrow> 'f node list \<Rightarrow> 'f node list \<Rightarrow> abort + 'f val list" where
  "insert_values h t cols vals =
     (if cols \<noteq> []
      then and_then (resolve_columns t cols) (\<lambda>column_indices.
             raising (fill_values h column_indices vals 0
                        (replicate (length (columns t)) PyNone)))
      else raising (map_result (\<lambda>expr. evaluate_expression h expr None None) vals))"

definition execute_insert ::
  "'f float_ops \<Rightarrow> 'f Database \<Rightarrow> string \<Rightarrow> 'f node list \<Rightarrow> 'f node list
     \<Rightarrow> 'f Database \<times> (abort + 'f printed)" where
  "execute_insert h db tn cols vals =
     (case get_table db tn of
        None \<Rightarrow> (db, Inl (Returned_False (TableNotFound tn)))
      | Some t \<Rightarrow>
         (case and_then (insert_values h t cols vals) (\<lambda>buf. failing (add_row t buf)) of
            Inl a \<Rightarrow> (db, Inl a)
          | Inr t' \<Rightarrow> (db\<lparr>tables := (tables db)(lower tn \<mapsto> t')\<rparr>, Inr Inserted)))"

text \<open>
  The first loop of \<^verbatim>\<open>_execute_update\<close>: each \<^verbatim>\<open>SET\<close> clause gives the index of its column
  and the value of its right side, evaluated once, without table and row.
\<close>

fun resolve_set_clauses ::
  "'f float_ops \<Rightarrow> 'f Table \<Rightarrow> 'f node list \<Rightarrow> abort + (int \<times> 'f val) list" where
  "resolve_set_clauses h t [] = Inr []"
| "resolve_set_clauses h t (sc_node # rest) =
     and_then (raising (and_then (node_left sc_node) node_name)) (\<lambda>nm.
     and_then (raising (get_column_index t nm)) (\<lambda>col_idx.
       if col_idx = - 1 then Inl (Returned_False (ColumnNotFound nm))
       else and_then (raising (and_then (node_right sc_node)
                       (\<lambda>r. evaluate_expression h r None None))) (\<lambda>v.
            and_then (resolve_set_clauses h t rest) (\<lambda>scs. Inr ((col_idx, v) # scs)))))"

text \<open>
  The assignments \<^verbatim>\<open>row[col_idx] = value\<close> to one row, in order. The row is changed in
  place: when an index is out of range, the assignments before it have been made.
\<close>

fun assign_row :: "(int \<times> 'f val) list \<Rightarrow> 'f val list \<Rightarrow> 'f val list \<times> py_error option" where
  "assign_row [] row = (row, None)"
| "assign_row ((col_idx, v) # rest) row =
     (if nat col_idx < length row then assign_row rest (row[nat col_idx := v])
      else (row, Some IndexError))"

text \<open>
  The second loop of \<^verbatim>\<open>_execute_update\<close> over the rows, with the count so far. The rows
  are changed in place, one after the other: the result is the rows as they are when the
  loop ends or an exception leaves it, and the count or the exception.
\<close>

fun update_rows ::
  "'f float_ops \<Rightarrow> 'f Table \<Rightarrow> 'f node option \<Rightarrow> (int \<times> 'f val) list \<Rightarrow> 'f val list list \<Rightarrow> nat
     \<Rightarrow> 'f val list list \<times> (py_error + nat)" where
  "update_rows h t w scs [] rows_updated = ([], Inr rows_updated)"
| "update_rows h t w scs (row # rest) rows_updated =
     (case row_matches h w t row of
        Inl e \<Rightarrow> (row # rest, Inl e)
      | Inr False \<Rightarrow>
          (case update_rows h t w scs rest rows_updated of
             (rest', res) \<Rightarrow> (row # rest', res))
      | Inr True \<Rightarrow>
          (case assign_row scs row of
             (row', Some e) \<Rightarrow> (row' # rest, Inl e)
           | (row', None) \<Rightarrow>
               (case update_rows h t w scs rest (Suc rows_updated) of
                  (rest', res) \<Rightarrow> (row' # rest', res))))"

definition execute_update ::
  "'f float_ops \<Rightarrow> 'f Database \<Rightarrow> string \<Rightarrow> 'f node list \<Rightarrow> 'f node option
     \<Rightarrow> 'f Database \<times> (abort + 'f printed)" where
  "execute_update h db tn set_clause_nodes w =
     (case get_table db tn of
        None \<Rightarrow> (db, Inl (Returned_False (TableNotFound tn)))
      | Some t \<Rightarrow>
         (case resolve_set_clauses h t set_clause_nodes of
            Inl a \<Rightarrow> (db, Inl a)
          | Inr scs \<Rightarrow>
             (case update_rows h t w scs (rows t) 0 of
                (rws, res) \<Rightarrow>
                  (db\<lparr>tables := (tables db)(lower tn \<mapsto> t\<lparr>rows := rws\<rparr>)\<rparr>,
                   case res of Inl e \<Rightarrow> Inl (Raised e) | Inr n \<Rightarrow> Inr (Updated n)))))"

text \<open>
  The loop of \<^verbatim>\<open>_execute_delete\<close>: a row is kept when there is a \<^verbatim>\<open>WHERE\<close> clause and it
  evaluates to false on the row. The result is the rows to keep and the number of the
  others.
\<close>

fun delete_rows ::
  "'f float_ops \<Rightarrow> 'f node option \<Rightarrow> 'f Table \<Rightarrow> 'f val list list
     \<Rightarrow> py_error + ('f val list list \<times> nat)" where
  "delete_rows h w t [] = Inr ([], 0)"
| "delete_rows h w t (row # rest) =
     and_then (case w of None \<Rightarrow> Inr False
               | Some c \<Rightarrow> and_then (evaluate_condition h c t row) (\<lambda>b. Inr (\<not> b))) (\<lambda>keep.
     and_then (delete_rows h w t rest) (\<lambda>(rows_to_keep, rows_deleted).
       Inr (if keep then (row # rows_to_keep, rows_deleted)
            else (rows_to_keep, Suc rows_deleted))))"

definition execute_delete ::
  "'f float_ops \<Rightarrow> 'f Database \<Rightarrow> string \<Rightarrow> 'f node option
     \<Rightarrow> 'f Database \<times> (abort + 'f printed)" where
  "execute_delete h db tn w =
     (case get_table db tn of
        None \<Rightarrow> (db, Inl (Returned_False (TableNotFound tn)))
      | Some t \<Rightarrow>
         (case delete_rows h w t (rows t) of
            Inl e \<Rightarrow> (db, Inl (Raised e))
          | Inr (rows_to_keep, rows_deleted) \<Rightarrow>
              (db\<lparr>tables := (tables db)(lower tn \<mapsto> t\<lparr>rows := rows_to_keep\<rparr>)\<rparr>,
               Inr (Deleted rows_deleted))))"

text \<open>
  \<^verbatim>\<open>_execute_create\<close> builds each \<^verbatim>\<open>ColumnDef\<close> from the fields \<^verbatim>\<open>name\<close> and \<^verbatim>\<open>data_type\<close>
  of the column definition node; the field \<^verbatim>\<open>name\<close> is the identifier node. No statement
  has a field \<^verbatim>\<open>title\<close>.
\<close>

definition execute_create ::
  "'f Database \<Rightarrow> string \<Rightarrow> 'f column_def_node list \<Rightarrow> 'f Database \<times> (abort + 'f printed)" where
  "execute_create db tn col_nodes =
     (let cols = map (\<lambda>c. \<lparr>col_name = NameNode (cd_name c), col_type = cd_data_type c\<rparr>) col_nodes
      in case create_table db tn cols None of
           Inl f \<Rightarrow> (db, Inl (Returned_False f))
         | Inr db' \<Rightarrow> (db', Inr (Created tn)))"

definition execute_drop :: "'f Database \<Rightarrow> string \<Rightarrow> 'f Database \<times> (abort + 'f printed)" where
  "execute_drop db tn =
     (case drop_table db tn of
        Inl f \<Rightarrow> (db, Inl (Returned_False f))
      | Inr db' \<Rightarrow> (db', Inr (Dropped tn)))"

fun execute_query ::
  "'f float_ops \<Rightarrow> 'f Database \<Rightarrow> 'f stmt \<Rightarrow> 'f Database \<times> (abort + 'f printed)" where
  "execute_query h db (SelectStmt cols tbls joins w) = execute_select h db cols tbls w"
| "execute_query h db (InsertStmt tn cols vals) = execute_insert h db tn cols vals"
| "execute_query h db (UpdateStmt tn set_clause_nodes w) = execute_update h db tn set_clause_nodes w"
| "execute_query h db (DeleteStmt tn w) = execute_delete h db tn w"
| "execute_query h db (CreateStmt tn col_nodes) = execute_create db tn col_nodes"
| "execute_query h db (DropStmt tn) = execute_drop db tn"

section \<open>Properties\<close>

text \<open>
  An instance of the floating point parameter for queries and tables without floating
  point numbers, on which the operations are never called, for evaluating the model on
  examples.
\<close>

definition no_floats :: "unit float_ops" where
  "no_floats = \<lparr>float_of_str = (\<lambda>s. ()), str_of_float = (\<lambda>x. []),
     bool_of_float = (\<lambda>x. False), float_compare = (\<lambda>operator a b. False),
     float_arith = (\<lambda>operator a b. Inl TypeError)\<rparr>"

text \<open>The equations that evaluate the lexer, the parser and the generator on a given text.\<close>

lemmas lexer_eval = get_next_token_def skip_comment_def skip_whitespace.simps skip_line.simps
  identifier_token_def identifier_loop.simps number_def number_loop.simps string_literal_def
  string_loop.simps single_def double_def peek_def advance_def isspace_def isalpha_def isdigit_def
  isalnum_def lower_def lower_char_def keywords_table_def new_Lexer_def Let_def

lemmas parser_eval = parse_query_def parse_def sql_statement_def select_statement_def
  insert_statement_def update_statement_def delete_statement_def create_statement_def
  drop_statement_def column_list_def comma_expressions.simps table_list_def table_reference_def
  comma_tables.simps join_loop.simps join_clause_def where_clause_def table_name_def set_clause_def
  comma_set_clauses.simps column_definition_def comma_column_definitions.simps
  condition.simps condition_loop.simps expression.simps literal_def consume_def new_Parser_def
  int_of_str_def digit_value_def

lemmas generator_eval = generate_select_def generate_insert_def generate_update_def
  generate_delete_def generate_create_def generate_drop_def generate_column_list_def
  generate_table_list_def generate_join_def generate_where_def generate_set_clause_def
  generate_column_definition_def generate_literal_def str_of_int_def str_of_nat.simps

subsection \<open>Numbers in the tokenizer\<close>

text \<open>
  Claim C8. On an input that starts with a digit, \<open>get_next_token\<close> is \<open>number\<close>; the lexeme
  is a prefix of the input made of digits and at most one decimal point; the run is
  maximal: the next character is not a digit, and it is a decimal point only when the
  lexeme already holds one (that second point is left unread); the token is a
  \<open>FLOAT_LITERAL\<close> exactly when the lexeme holds a decimal point and an \<open>INTEGER\<close> otherwise.
  The input \<^verbatim>\<open>1.2.3\<close> gives \<open>FLOAT_LITERAL\<close> \<^verbatim>\<open>1.2\<close>, \<open>DOT\<close>, \<open>INTEGER\<close> \<^verbatim>\<open>3\<close>.
\<close>

theorem number_maximal_run:
  assumes "input lx \<noteq> []" and "isdigit (hd (input lx))"
  shows "get_next_token lx = number lx
     \<and> input lx = lexeme (fst (number lx)) @ input (snd (number lx))
     \<and> (\<forall>c \<in> set (lexeme (fst (number lx))). isdigit c \<or> c = CHR ''.'')
     \<and> count_list (lexeme (fst (number lx))) (CHR ''.'') \<le> 1
     \<and> \<not> isdigit (peek (snd (number lx)))
     \<and> (peek (snd (number lx)) = CHR ''.'' \<longrightarrow> CHR ''.'' \<in> set (lexeme (fst (number lx))))
     \<and> ttype (fst (number lx)) =
         (if CHR ''.'' \<in> set (lexeme (fst (number lx))) then FLOAT_LITERAL else INTEGER)
     \<and> tokenize ''1.2.3'' =
         [\<lparr>ttype = FLOAT_LITERAL, lexeme = ''1.2'', tline = 1, tcolumn = 1\<rparr>,
          \<lparr>ttype = DOT, lexeme = ''.'', tline = 1, tcolumn = 4\<rparr>,
          \<lparr>ttype = INTEGER, lexeme = ''3'', tline = 1, tcolumn = 5\<rparr>]"
proof -
  from assms have d: "isdigit (peek lx)" by (simp add: peek_hd)
  then have ns: "\<not> isspace (peek lx)" and nh: "peek lx \<noteq> CHR ''#''"
    and na: "\<not> isalpha (peek lx)" and nu: "peek lx \<noteq> CHR ''_''"
    by (auto simp: isdigit_def isspace_def isalpha_def Let_def)
  from ns have "skip_whitespace lx = lx" by (subst skip_whitespace.simps) simp
  with nh have "skip_comment (skip_whitespace lx) = lx" by (simp add: skip_comment_def)
  with assms(1) d na nu have g: "get_next_token lx = number lx"
    by (simp add: get_next_token_def Let_def)
  obtain l f lx1 where loop: "number_loop lx [] False = (l, f, lx1)"
    by (cases "number_loop lx [] False") auto
  from number_loop_run[OF loop] obtain run where
    r: "l = run" "input lx = run @ input lx1" "\<forall>c \<in> set run. isdigit c \<or> c = CHR ''.''"
       "count_list run (CHR ''.'') \<le> 1" "f \<longleftrightarrow> CHR ''.'' \<in> set run"
       "\<not> isdigit (peek lx1)" "peek lx1 = CHR ''.'' \<longrightarrow> f"
    by auto
  from loop have n: "lexeme (fst (number lx)) = l" "snd (number lx) = lx1"
    "ttype (fst (number lx)) = (if f then FLOAT_LITERAL else INTEGER)"
    by (simp_all add: number_def Let_def)
  have t: "tokenize ''1.2.3'' =
         [\<lparr>ttype = FLOAT_LITERAL, lexeme = ''1.2'', tline = 1, tcolumn = 1\<rparr>,
          \<lparr>ttype = DOT, lexeme = ''.'', tline = 1, tcolumn = 4\<rparr>,
          \<lparr>ttype = INTEGER, lexeme = ''3'', tline = 1, tcolumn = 5\<rparr>]"
    by code_simp
  show ?thesis using g r n t by simp
qed

theorem number_maximal_run_witness:
  "input (new_Lexer ''12.5.7 '') \<noteq> [] \<and> isdigit (hd (input (new_Lexer ''12.5.7 '')))
   \<and> get_next_token (new_Lexer ''12.5.7 '') = number (new_Lexer ''12.5.7 '')
   \<and> lexeme (fst (number (new_Lexer ''12.5.7 ''))) = ''12.5''
   \<and> ttype (fst (number (new_Lexer ''12.5.7 ''))) = FLOAT_LITERAL"
proof -
  have h1: "input (new_Lexer ''12.5.7 '') \<noteq> []" by (simp add: new_Lexer_def)
  have h2: "isdigit (hd (input (new_Lexer ''12.5.7 '')))" by (simp add: new_Lexer_def isdigit_def)
  have l: "lexeme (fst (number (new_Lexer ''12.5.7 ''))) = ''12.5''" by code_simp
  show ?thesis using number_maximal_run[OF h1 h2] h1 h2 l by simp
qed

subsection \<open>Connectives nest to the right\<close>

text \<open>
  Claim C5. The condition that \<open>condition\<close> returns is right-associated, and so is the
  \<^verbatim>\<open>WHERE\<close> clause of every parsed statement: no \<open>AND\<close> or \<open>OR\<close> node has an \<open>AND\<close> or \<open>OR\<close>
  node as its left operand. The text \<^verbatim>\<open>a AND b AND c\<close> parses as \<^verbatim>\<open>a AND (b AND c)\<close>, and
  \<^verbatim>\<open>a AND b OR c\<close> as \<^verbatim>\<open>a AND (b OR c)\<close>.
\<close>

theorem condition_right_associated:
  "(condition h p = Inr (n, p') \<longrightarrow> right_associated n)
   \<and> (parse_query h sql = Inr ast \<longrightarrow> (\<forall>c. stmt_where ast = Some c \<longrightarrow> right_associated c))
   \<and> parse_query h ''SELECT * FROM t WHERE a AND b AND c'' =
       Inr (SelectStmt [Identifier ''*''] [''t''] []
         (Some (Condition (Identifier ''a'') AND
                  (Condition (Identifier ''b'') AND (Identifier ''c'')))))
   \<and> parse_query h ''SELECT * FROM t WHERE a AND b OR c'' =
       Inr (SelectStmt [Identifier ''*''] [''t''] []
         (Some (Condition (Identifier ''a'') AND
                  (Condition (Identifier ''b'') OR (Identifier ''c'')))))"
proof -
  have 1: "condition h p = Inr (n, p') \<longrightarrow> right_associated n"
    using condition_shape(1)[of h p n p'] by (simp add: parsed_shape_def)
  have 2: "parse_query h sql = Inr ast \<longrightarrow> (\<forall>c. stmt_where ast = Some c \<longrightarrow> right_associated c)"
    using parse_query_shape[of h sql ast] stmt_where_nodes[of ast]
    by (auto simp: parsed_shape_def)
  have 3: "parse_query h ''SELECT * FROM t WHERE a AND b AND c'' =
       Inr (SelectStmt [Identifier ''*''] [''t''] []
         (Some (Condition (Identifier ''a'') AND
                  (Condition (Identifier ''b'') AND (Identifier ''c'')))))"
    by (simp add: lexer_eval parser_eval)
  have 4: "parse_query h ''SELECT * FROM t WHERE a AND b OR c'' =
       Inr (SelectStmt [Identifier ''*''] [''t''] []
         (Some (Condition (Identifier ''a'') AND
                  (Condition (Identifier ''b'') OR (Identifier ''c'')))))"
    by (simp add: lexer_eval parser_eval)
  from 1 2 3 4 show ?thesis by blast
qed

theorem condition_right_associated_witness:
  "parse_query no_floats ''DELETE FROM t WHERE a = 1 OR b < 2 AND c != 3'' =
     Inr (DeleteStmt ''t''
       (Some (Condition (Condition (Identifier ''a'') EQUALS (Literal INTEGER (PyInt 1))) OR
         (Condition (Condition (Identifier ''b'') LESS (Literal INTEGER (PyInt 2))) AND
           (Condition (Identifier ''c'') NOT_EQUALS (Literal INTEGER (PyInt 3)))))))
   \<and> right_associated
       (Condition (Condition (Identifier ''a'') EQUALS (Literal INTEGER (PyInt 1))) OR
         (Condition (Condition (Identifier ''b'') LESS (Literal INTEGER (PyInt 2))) AND
           (Condition (Identifier ''c'') NOT_EQUALS (Literal INTEGER (PyInt (3::int))))) :: unit node)"
proof -
  have p: "parse_query no_floats ''DELETE FROM t WHERE a = 1 OR b < 2 AND c != 3'' =
     Inr (DeleteStmt ''t''
       (Some (Condition (Condition (Identifier ''a'') EQUALS (Literal INTEGER (PyInt 1))) OR
         (Condition (Condition (Identifier ''b'') LESS (Literal INTEGER (PyInt 2))) AND
           (Condition (Identifier ''c'') NOT_EQUALS (Literal INTEGER (PyInt 3)))))))"
    by (simp add: lexer_eval parser_eval)
  from condition_right_associated[of no_floats _ _ _ "''DELETE FROM t WHERE a = 1 OR b < 2 AND c != 3''"
      "DeleteStmt ''t''
       (Some (Condition (Condition (Identifier ''a'') EQUALS (Literal INTEGER (PyInt 1))) OR
         (Condition (Condition (Identifier ''b'') LESS (Literal INTEGER (PyInt 2))) AND
           (Condition (Identifier ''c'') NOT_EQUALS (Literal INTEGER (PyInt 3))))))"] p
  show ?thesis by simp
qed

subsection \<open>The parser builds no \<open>NOT\<close>\<close>

text \<open>
  Claim C10. No node of a parsed statement has the operator \<open>NOT\<close>, so that the branch of
  \<^verbatim>\<open>_evaluate_condition\<close> for \<open>NOT\<close> is never taken on a parsed statement; and where the
  parser expects an expression or a condition and the token in hand is \<open>NOT\<close>, it raises
  \<^verbatim>\<open>SyntaxError\<close>.
\<close>

theorem parser_builds_no_not:
  "(parse_query h sql = Inr ast \<longrightarrow> (\<forall>n \<in> set (stmt_nodes ast). \<not> has_not n))
   \<and> (ttype (current_token p) = NOT \<longrightarrow>
        expression h p = Inl SyntaxError \<and> condition h p = Inl SyntaxError)"
proof -
  have 1: "parse_query h sql = Inr ast \<longrightarrow> (\<forall>n \<in> set (stmt_nodes ast). \<not> has_not n)"
    using parse_query_shape[of h sql ast] by (auto simp: parsed_shape_def)
  have 2: "ttype (current_token p) = NOT \<longrightarrow>
        expression h p = Inl SyntaxError \<and> condition h p = Inl SyntaxError"
    by (simp add: expression.simps condition.simps)
  from 1 2 show ?thesis by blast
qed

theorem parser_builds_no_not_witness:
  "parse_query no_floats ''SELECT a FROM t WHERE b = 1'' =
     Inr (SelectStmt [Identifier ''a''] [''t''] []
            (Some (Condition (Identifier ''b'') EQUALS (Literal INTEGER (PyInt 1)))))
   \<and> \<not> has_not (Condition (Identifier ''b'') EQUALS (Literal INTEGER (PyInt 1)) :: unit node)
   \<and> ttype (current_token (new_Parser (new_Lexer ''NOT a = 1''))) = NOT
   \<and> condition no_floats (new_Parser (new_Lexer ''NOT a = 1'')) = Inl SyntaxError
   \<and> parse_query no_floats ''SELECT a FROM t WHERE NOT b = 1'' = Inl SyntaxError"
proof -
  have p: "parse_query no_floats ''SELECT a FROM t WHERE b = 1'' =
     Inr (SelectStmt [Identifier ''a''] [''t''] []
            (Some (Condition (Identifier ''b'') EQUALS (Literal INTEGER (PyInt 1)))))"
    by (simp add: lexer_eval parser_eval)
  have t: "ttype (current_token (new_Parser (new_Lexer ''NOT a = 1''))) = NOT"
    by (simp add: lexer_eval new_Parser_def)
  have q: "parse_query no_floats ''SELECT a FROM t WHERE NOT b = 1'' = Inl SyntaxError"
    by (simp add: lexer_eval parser_eval)
  from parser_builds_no_not[of no_floats "''SELECT a FROM t WHERE b = 1''"
      "SelectStmt [Identifier ''a''] [''t''] []
            (Some (Condition (Identifier ''b'') EQUALS (Literal INTEGER (PyInt 1))))"
      "new_Parser (new_Lexer ''NOT a = 1'')"] p t q
  show ?thesis by simp
qed

subsection \<open>The generator on a chain of comparisons\<close>

text \<open>
  Claim C1. The statement \<^verbatim>\<open>SELECT * FROM t WHERE a = 1 AND b = 2\<close> parses, and
  \<open>generate_sql\<close> raises \<^verbatim>\<open>ValueError\<close> on the parsed tree: \<open>generate_condition\<close> renders
  both operands of the \<open>AND\<close> node with \<open>generate_expression\<close>, which accepts no
  \<^verbatim>\<open>CONDITION\<close> node. The generator is therefore not total on the parser's output.
\<close>

theorem generate_sql_raises_on_chain:
  "parse_query h ''SELECT * FROM t WHERE a = 1 AND b = 2'' =
     Inr (SelectStmt [Identifier ''*''] [''t''] []
       (Some (Condition (Condition (Identifier ''a'') EQUALS (Literal INTEGER (PyInt 1))) AND
                (Condition (Identifier ''b'') EQUALS (Literal INTEGER (PyInt 2))))))
   \<and> generate_sql h (SelectStmt [Identifier ''*''] [''t''] []
       (Some (Condition (Condition (Identifier ''a'') EQUALS (Literal INTEGER (PyInt 1))) AND
                (Condition (Identifier ''b'') EQUALS (Literal INTEGER (PyInt 2))))))
       = Inl ValueError"
  by (simp add: lexer_eval parser_eval generator_eval)

lemmas executor_eval = execute_select_def execute_insert_def execute_update_def execute_delete_def
  execute_create_def execute_drop_def get_table_def create_table_def drop_table_def new_Table_def
  new_Database_def add_row_def validate_type_def get_column_index_def row_get_def raising_def
  failing_def row_matches_def insert_values_def print_table_def lower_def lower_char_def
  no_floats_def

text \<open>
  A table \<^verbatim>\<open>t\<close> with one \<^verbatim>\<open>INT\<close> column \<^verbatim>\<open>a\<close> and the rows \<^verbatim>\<open>[1]\<close> and \<^verbatim>\<open>[None]\<close>, as
  \<^verbatim>\<open>create_table\<close> and two calls of \<^verbatim>\<open>add_row\<close> build it, and a database that holds it.
\<close>

definition one_and_null :: "unit Table" where
  "one_and_null = \<lparr>name = ''t'', title = ''t'',
     columns = [\<lparr>col_name = NameStr ''a'', col_type = INT_TYPE\<rparr>],
     rows = [[PyInt 1], [PyNone]]\<rparr>"

definition one_and_null_db :: "unit Database" where
  "one_and_null_db = \<lparr>tables = [''t'' \<mapsto> one_and_null]\<rparr>"

lemma delete_rows_None: "delete_rows h None t rws = Inr ([], length rws)"
  by (induction rws) simp_all

lemma delete_rows_Some:
  "delete_rows h (Some c) t rws = Inr (kept, n) \<Longrightarrow>
     kept = filter (\<lambda>row. evaluate_condition h c t row = Inr False) rws
     \<and> n = length rws - length kept
     \<and> (\<forall>row \<in> set rws. evaluate_condition h c t row \<in> {Inr True, Inr False})"
proof (induction rws arbitrary: kept n)
  case Nil
  then show ?case by simp
next
  case (Cons row rws)
  from Cons.prems obtain b k m where
    b: "evaluate_condition h c t row = Inr b" and r: "delete_rows h (Some c) t rws = Inr (k, m)"
    and res: "(kept, n) = (if \<not> b then (row # k, m) else (k, Suc m))"
    by (auto simp: and_then_Inr)
  from Cons.IH[OF r] have k: "k = filter (\<lambda>row. evaluate_condition h c t row = Inr False) rws"
    and m: "m = length rws - length k"
    and a: "\<forall>row \<in> set rws. evaluate_condition h c t row \<in> {Inr True, Inr False}"
    by simp_all
  with b res show ?case by (cases b) (auto simp: Suc_diff_le)
qed

lemma delete_rows_completes:
  "\<forall>row \<in> set rws. evaluate_condition h c t row \<in> {Inr True, Inr False} \<Longrightarrow>
     \<exists>kept n. delete_rows h (Some c) t rws = Inr (kept, n)"
proof (induction rws)
  case Nil
  then show ?case by simp
next
  case (Cons row rws)
  then obtain kept n where "delete_rows h (Some c) t rws = Inr (kept, n)" by auto
  moreover from Cons.prems obtain b where "evaluate_condition h c t row = Inr b" by auto
  ultimately show ?case by simp
qed

subsection \<open>What a \<^verbatim>\<open>DELETE\<close> leaves\<close>

text \<open>
  Claim C6, amended. For a table that exists and a condition, a \<^verbatim>\<open>DELETE\<close> that completes
  leaves exactly the rows on which the condition evaluated to false, in their order,
  and reports the number of rows removed. It completes when the condition evaluates
  without exception on every row; otherwise it raises and the database is as before.
  Without \<^verbatim>\<open>WHERE\<close> clause all rows are removed.
\<close>

theorem delete_keeps_false_rows:
  assumes "get_table db tn = Some t"
  shows "(execute_delete h db tn (Some c) = (db', Inr out) \<longrightarrow>
            get_table db' tn =
              Some (t\<lparr>rows := filter (\<lambda>row. evaluate_condition h c t row = Inr False) (rows t)\<rparr>)
            \<and> out = Deleted (length (rows t)
                  - length (filter (\<lambda>row. evaluate_condition h c t row = Inr False) (rows t))))
       \<and> ((\<forall>row \<in> set (rows t). evaluate_condition h c t row \<in> {Inr True, Inr False}) \<longrightarrow>
            (\<exists>db'' n. execute_delete h db tn (Some c) = (db'', Inr (Deleted n))))
       \<and> (\<not> (\<forall>row \<in> set (rows t). evaluate_condition h c t row \<in> {Inr True, Inr False}) \<longrightarrow>
            (\<exists>e. execute_delete h db tn (Some c) = (db, Inl (Raised e))))
       \<and> execute_delete h db tn None =
            (db\<lparr>tables := (tables db)(lower tn \<mapsto> t\<lparr>rows := []\<rparr>)\<rparr>,
             Inr (Deleted (length (rows t))))"
proof -
  let ?ok = "\<forall>row \<in> set (rows t). evaluate_condition h c t row \<in> {Inr True, Inr False}"
  have 1: "execute_delete h db tn (Some c) = (db', Inr out) \<longrightarrow>
            get_table db' tn =
              Some (t\<lparr>rows := filter (\<lambda>row. evaluate_condition h c t row = Inr False) (rows t)\<rparr>)
            \<and> out = Deleted (length (rows t)
                  - length (filter (\<lambda>row. evaluate_condition h c t row = Inr False) (rows t)))"
    using assms
    by (auto simp: execute_delete_def get_table_def split: sum.splits dest!: delete_rows_Some)
  have 2: "?ok \<longrightarrow> (\<exists>db'' n. execute_delete h db tn (Some c) = (db'', Inr (Deleted n)))"
  proof
    assume ?ok
    from delete_rows_completes[OF this] obtain kept n
      where "delete_rows h (Some c) t (rows t) = Inr (kept, n)" by blast
    with assms show "\<exists>db'' n. execute_delete h db tn (Some c) = (db'', Inr (Deleted n))"
      by (simp add: execute_delete_def)
  qed
  have 3: "\<not> ?ok \<longrightarrow> (\<exists>e. execute_delete h db tn (Some c) = (db, Inl (Raised e)))"
  proof
    assume n: "\<not> ?ok"
    show "\<exists>e. execute_delete h db tn (Some c) = (db, Inl (Raised e))"
    proof (cases "delete_rows h (Some c) t (rows t)")
      case (Inl e)
      with assms show ?thesis by (simp add: execute_delete_def)
    next
      case (Inr p)
      then obtain kept m where "delete_rows h (Some c) t (rows t) = Inr (kept, m)"
        by (cases p) auto
      from delete_rows_Some[OF this] n show ?thesis by blast
    qed
  qed
  have 4: "execute_delete h db tn None =
            (db\<lparr>tables := (tables db)(lower tn \<mapsto> t\<lparr>rows := []\<rparr>)\<rparr>,
             Inr (Deleted (length (rows t))))"
    using assms by (simp add: execute_delete_def delete_rows_None)
  from 1 2 3 4 show ?thesis by blast
qed

theorem delete_keeps_false_rows_witness:
  "get_table one_and_null_db ''t'' = Some one_and_null
   \<and> execute_delete no_floats one_and_null_db ''t''
        (Some (Condition (Identifier ''a'') EQUALS (Literal INTEGER (PyInt 1)))) =
      (one_and_null_db\<lparr>tables := (tables one_and_null_db)(''t'' \<mapsto> one_and_null\<lparr>rows := [[PyNone]]\<rparr>)\<rparr>,
       Inr (Deleted 1))
   \<and> get_table (fst (execute_delete no_floats one_and_null_db ''t''
        (Some (Condition (Identifier ''a'') EQUALS (Literal INTEGER (PyInt 1)))))) ''t''
      = Some (one_and_null\<lparr>rows := [[PyNone]]\<rparr>)"
proof -
  have g: "get_table one_and_null_db ''t'' = Some one_and_null"
    by (simp add: executor_eval one_and_null_db_def)
  have e: "execute_delete no_floats one_and_null_db ''t''
        (Some (Condition (Identifier ''a'') EQUALS (Literal INTEGER (PyInt 1)))) =
      (one_and_null_db\<lparr>tables := (tables one_and_null_db)(''t'' \<mapsto> one_and_null\<lparr>rows := [[PyNone]]\<rparr>)\<rparr>,
       Inr (Deleted 1))"
    by (simp add: executor_eval one_and_null_db_def one_and_null_def)
  have f: "filter (\<lambda>row. evaluate_condition no_floats
             (Condition (Identifier ''a'') EQUALS (Literal INTEGER (PyInt 1))) one_and_null row
             = Inr False) (rows one_and_null) = [[PyNone]]"
    by (simp add: executor_eval one_and_null_def)
  from delete_keeps_false_rows[OF g, of no_floats
      "Condition (Identifier ''a'') EQUALS (Literal INTEGER (PyInt 1))" _ "Deleted 1"] e f g
  show ?thesis by simp
qed

text \<open>
  The claim as it stands fails when the condition raises: \<^verbatim>\<open>DELETE FROM t WHERE a > 0\<close> on
  the rows \<^verbatim>\<open>[1]\<close> and \<^verbatim>\<open>[None]\<close> raises \<^verbatim>\<open>TypeError\<close> at the second row, and the table still
  holds the first row, on which the condition evaluated to true.
\<close>

theorem delete_raises_counterexample:
  "snd (execute_delete no_floats one_and_null_db ''t''
          (Some (Condition (Identifier ''a'') GREATER (Literal INTEGER (PyInt 0)))))
     = Inl (Raised TypeError)
   \<and> map_option rows (get_table (fst (execute_delete no_floats one_and_null_db ''t''
          (Some (Condition (Identifier ''a'') GREATER (Literal INTEGER (PyInt 0)))))) ''t'')
     = Some [[PyInt 1], [PyNone]]
   \<and> evaluate_condition no_floats (Condition (Identifier ''a'') GREATER (Literal INTEGER (PyInt 0)))
        one_and_null [PyInt 1] = Inr True"
  by (simp add: executor_eval one_and_null_db_def one_and_null_def)





subsection \<open>Statements that stop midway\<close>




text \<open>A table \<^verbatim>\<open>t\<close> with the \<^verbatim>\<open>INT\<close> columns \<^verbatim>\<open>a\<close> and \<^verbatim>\<open>b\<close> and no rows.\<close>

definition two_columns :: "unit Table" where
  "two_columns = \<lparr>name = ''t'', title = ''t'',
     columns = [\<lparr>col_name = NameStr ''a'', col_type = INT_TYPE\<rparr>,
                \<lparr>col_name = NameStr ''b'', col_type = INT_TYPE\<rparr>],
     rows = []\<rparr>"

definition two_columns_db :: "unit Database" where
  "two_columns_db = \<lparr>tables = [''t'' \<mapsto> two_columns]\<rparr>"

text \<open>The row buffer of a named \<^verbatim>\<open>INSERT\<close> after the values \<open>vs\<close> are placed at \<open>idxs\<close>.\<close>

definition placed :: "int list \<Rightarrow> 'f val list \<Rightarrow> 'f val list \<Rightarrow> 'f val list" where
  "placed idxs vs buf = fold (\<lambda>(col_idx, v) b. b[nat col_idx := v]) (zip idxs vs) buf"

lemma length_placed: "length (placed idxs vs buf) = length buf"
  unfolding placed_def by (induction idxs arbitrary: vs buf) (auto split: list.splits simp: zip_Cons1)

lemma fill_values_placed:
  "map_result (\<lambda>e. evaluate_expression h e None None) (take (length idxs) (drop i vals)) = Inr vs
     \<Longrightarrow> fill_values h idxs vals i buf = Inr (placed idxs vs buf)"
proof (induction idxs arbitrary: i vs buf)
  case Nil
  then show ?case by (simp add: placed_def)
next
  case (Cons idx idxs)
  show ?case
  proof (cases "i < length vals")
    case True
    then have d: "drop i vals = vals ! i # drop (Suc i) vals" by (simp add: Cons_nth_drop_Suc)
    with Cons.prems obtain v vs' where
      v: "evaluate_expression h (vals ! i) None None = Inr v"
      and r: "map_result (\<lambda>e. evaluate_expression h e None None)
                (take (length idxs) (drop (Suc i) vals)) = Inr vs'"
      and vs: "vs = v # vs'"
      by (auto simp: and_then_Inr)
    from Cons.IH[OF r] True v vs show ?thesis by (simp add: placed_def)
  next
    case False
    then have "drop i vals = []" "drop (Suc i) vals = []" by simp_all
    with Cons.prems have vs: "vs = []"
      and r: "map_result (\<lambda>e. evaluate_expression h e None None)
                (take (length idxs) (drop (Suc i) vals)) = Inr []"
      by simp_all
    from Cons.IH[OF r] False vs show ?thesis by (simp add: placed_def)
  qed
qed

lemma length_fill_values:
  "fill_values h idxs vals i buf = Inr b \<Longrightarrow> length b = length buf"
proof (induction idxs arbitrary: i buf)
  case Nil
  then show ?case by simp
next
  case (Cons idx idxs)
  then show ?case by (fastforce simp: and_then_Inr split: if_splits)
qed

lemma raising_Inr: "raising m = Inr x \<longleftrightarrow> m = Inr x"
  by (cases m) (simp_all add: raising_def)

lemma insert_values_length:
  assumes "cols \<noteq> []" and "insert_values h t cols vals = Inr buf"
  shows "length buf = length (columns t)"
proof -
  from assms obtain idxs where
    "fill_values h idxs vals 0 (replicate (length (columns t)) PyNone) = Inr buf"
    by (auto simp: insert_values_def and_then_Inr raising_Inr)
  from length_fill_values[OF this] show ?thesis by simp
qed

subsection \<open>A named \<^verbatim>\<open>INSERT\<close> with another number of values\<close>

text \<open>
  Claim C3, amended. For a table that exists, an \<^verbatim>\<open>INSERT\<close> with a column list either
  appends exactly one row of the table's width or leaves the database as it was. A
  number of values that differs from the number of named columns is no failure: when
  the named columns exist and the values that are used evaluate to \<open>vs\<close>, the values are
  placed at the named columns pair by pair, as far as both lists go; the other columns
  stay null, the other values are ignored, and the row is appended unless a value in
  it has not the type of its column.
\<close>

theorem insert_named_places_pairs:
  assumes "get_table db tn = Some t" and "cols \<noteq> []"
  shows "((\<exists>row. length row = length (columns t)
             \<and> execute_insert h db tn cols vals =
                 (db\<lparr>tables := (tables db)(lower tn \<mapsto> t\<lparr>rows := rows t @ [row]\<rparr>)\<rparr>,
                  Inr Inserted))
          \<or> (\<exists>a. execute_insert h db tn cols vals = (db, Inl a)))
     \<and> (resolve_columns t cols = Inr idxs \<longrightarrow>
         map_result (\<lambda>e. evaluate_expression h e None None) (take (length idxs) vals) = Inr vs
         \<longrightarrow>
         execute_insert h db tn cols vals =
           (if list_all (\<lambda>(v, col). validate_type v (col_type col))
                 (zip (placed idxs vs (replicate (length (columns t)) PyNone)) (columns t))
            then (db\<lparr>tables := (tables db)(lower tn \<mapsto>
                       t\<lparr>rows := rows t
                            @ [placed idxs vs (replicate (length (columns t)) PyNone)]\<rparr>)\<rparr>,
                  Inr Inserted)
            else (db, Inl (Returned_False TypeMismatch))))"
proof -
  have 1: "(\<exists>row. length row = length (columns t)
             \<and> execute_insert h db tn cols vals =
                 (db\<lparr>tables := (tables db)(lower tn \<mapsto> t\<lparr>rows := rows t @ [row]\<rparr>)\<rparr>,
                  Inr Inserted))
          \<or> (\<exists>a. execute_insert h db tn cols vals = (db, Inl a))"
  proof (cases "insert_values h t cols vals")
    case (Inl a)
    with assms(1) show ?thesis by (simp add: execute_insert_def)
  next
    case (Inr buf)
    from insert_values_length[OF assms(2) Inr] have l: "length buf = length (columns t)" .
    show ?thesis
    proof (cases "add_row t buf")
      case (Inl f)
      with Inr assms(1) show ?thesis by (simp add: execute_insert_def failing_def)
    next
      case (Inr t')
      then have "t' = t\<lparr>rows := rows t @ [buf]\<rparr>" by (auto simp: add_row_def split: if_splits)
      with Inr \<open>insert_values h t cols vals = Inr buf\<close> assms(1) l show ?thesis
        by (auto simp: execute_insert_def failing_def)
    qed
  qed
  have 2: "resolve_columns t cols = Inr idxs \<longrightarrow>
         map_result (\<lambda>e. evaluate_expression h e None None) (take (length idxs) vals) = Inr vs
         \<longrightarrow>
         execute_insert h db tn cols vals =
           (if list_all (\<lambda>(v, col). validate_type v (col_type col))
                 (zip (placed idxs vs (replicate (length (columns t)) PyNone)) (columns t))
            then (db\<lparr>tables := (tables db)(lower tn \<mapsto>
                       t\<lparr>rows := rows t
                            @ [placed idxs vs (replicate (length (columns t)) PyNone)]\<rparr>)\<rparr>,
                  Inr Inserted)
            else (db, Inl (Returned_False TypeMismatch)))"
  proof (intro impI)
    assume r: "resolve_columns t cols = Inr idxs"
      and m: "map_result (\<lambda>e. evaluate_expression h e None None) (take (length idxs) vals)
                = Inr vs"
    let ?buf = "placed idxs vs (replicate (length (columns t)) PyNone)"
    from m have "fill_values h idxs vals 0 (replicate (length (columns t)) PyNone) = Inr ?buf"
      using fill_values_placed[of h idxs 0 vals vs] by simp
    with r assms(2) have "insert_values h t cols vals = Inr ?buf"
      by (simp add: insert_values_def raising_def)
    moreover have "length ?buf = length (columns t)" by (simp add: length_placed)
    ultimately show "execute_insert h db tn cols vals =
           (if list_all (\<lambda>(v, col). validate_type v (col_type col)) (zip ?buf (columns t))
            then (db\<lparr>tables := (tables db)(lower tn \<mapsto> t\<lparr>rows := rows t @ [?buf]\<rparr>)\<rparr>,
                  Inr Inserted)
            else (db, Inl (Returned_False TypeMismatch)))"
      using assms(1) by (simp add: execute_insert_def add_row_def failing_def)
  qed
  from 1 2 show ?thesis by blast
qed

theorem insert_named_places_pairs_witness:
  "get_table two_columns_db ''t'' = Some two_columns
   \<and> [Identifier ''b'', Identifier ''a''] \<noteq> ([] :: unit node list)
   \<and> resolve_columns two_columns [Identifier ''b'', Identifier ''a''] = Inr [1, 0]
   \<and> execute_insert no_floats two_columns_db ''t'' [Identifier ''b'', Identifier ''a'']
        [Literal INTEGER (PyInt 7)] =
      (two_columns_db\<lparr>tables := (tables two_columns_db)
          (''t'' \<mapsto> two_columns\<lparr>rows := [[PyNone, PyInt 7]]\<rparr>)\<rparr>, Inr Inserted)"
proof -
  have g: "get_table two_columns_db ''t'' = Some two_columns"
    by (simp add: executor_eval two_columns_db_def)
  have n: "[Identifier ''b'', Identifier ''a''] \<noteq> ([] :: unit node list)" by simp
  have r: "resolve_columns two_columns [Identifier ''b'', Identifier ''a''] = Inr [1, 0]"
    by (simp add: executor_eval two_columns_def)
  have m: "map_result (\<lambda>e. evaluate_expression no_floats e None None)
             (take (length [1, 0 :: int]) [Literal INTEGER (PyInt 7)]) = Inr [PyInt 7]"
    by simp
  have p: "placed [1, 0] [PyInt 7] (replicate (length (columns two_columns)) PyNone)
             = [PyNone, PyInt 7 :: unit val]"
    by (simp add: placed_def two_columns_def)
  from insert_named_places_pairs[OF g n, where h = no_floats and idxs = "[1, 0]"
      and vals = "[Literal INTEGER (PyInt 7)]" and vs = "[PyInt 7]"] g n r m
  show ?thesis
    unfolding p by (simp add: executor_eval two_columns_def)
qed

text \<open>
  The claim as it stands fails: \<^verbatim>\<open>INSERT INTO t (a, b) VALUES (1)\<close>, with one value for two
  named columns, returns \<^verbatim>\<open>True\<close> and the table has one row more, \<^verbatim>\<open>[1, None]\<close>; so does
  \<^verbatim>\<open>INSERT INTO t (a) VALUES (1, 2)\<close>, with the row \<^verbatim>\<open>[1, None]\<close>.
\<close>

theorem insert_count_mismatch_counterexample:
  "parse_query no_floats ''INSERT INTO t (a, b) VALUES (1)'' =
     Inr (InsertStmt ''t'' [Identifier ''a'', Identifier ''b''] [Literal INTEGER (PyInt 1)])
   \<and> map_option rows (get_table two_columns_db ''t'') = Some []
   \<and> snd (execute_query no_floats two_columns_db
        (InsertStmt ''t'' [Identifier ''a'', Identifier ''b''] [Literal INTEGER (PyInt 1)]))
      = Inr Inserted
   \<and> map_option rows (get_table (fst (execute_query no_floats two_columns_db
        (InsertStmt ''t'' [Identifier ''a'', Identifier ''b''] [Literal INTEGER (PyInt 1)]))) ''t'')
      = Some [[PyInt 1, PyNone]]
   \<and> snd (execute_query no_floats two_columns_db
        (InsertStmt ''t'' [Identifier ''a''] [Literal INTEGER (PyInt 1), Literal INTEGER (PyInt 2)]))
      = Inr Inserted
   \<and> map_option rows (get_table (fst (execute_query no_floats two_columns_db
        (InsertStmt ''t'' [Identifier ''a'']
           [Literal INTEGER (PyInt 1), Literal INTEGER (PyInt 2)]))) ''t'')
      = Some [[PyInt 1, PyNone]]"
proof -
  have p: "parse_query no_floats ''INSERT INTO t (a, b) VALUES (1)'' =
     Inr (InsertStmt ''t'' [Identifier ''a'', Identifier ''b''] [Literal INTEGER (PyInt 1)])"
    by (simp add: lexer_eval parser_eval)
  show ?thesis
    unfolding p by (simp add: executor_eval two_columns_db_def two_columns_def)
qed

lemma column_index_from_unknown:
  "\<forall>col \<in> set cols. \<exists>s. col_name col = NameStr s \<and> lower s \<noteq> lower nm \<Longrightarrow>
     column_index_from cols nm i = Inr (- 1)"
  by (induction cols arbitrary: i) auto

lemma column_index_from_text:
  "\<forall>col \<in> set cols. \<exists>s. col_name col = NameStr s \<Longrightarrow>
     \<exists>j. column_index_from cols nm i = Inr j"
  by (induction cols arbitrary: i) auto

lemma resolve_columns_unknown:
  assumes "\<forall>col \<in> set (columns t). \<exists>s. col_name col = NameStr s \<and> lower s \<noteq> lower nm"
    and "nm \<in> set names"
  shows "\<exists>n. resolve_columns t (map Identifier names) = Inl (Returned_False (ColumnNotFound n))"
  using assms(2)
proof (induction names)
  case Nil
  then show ?case by simp
next
  case (Cons n0 names)
  from assms(1) have "\<forall>col \<in> set (columns t). \<exists>s. col_name col = NameStr s" by blast
  from column_index_from_text[OF this] obtain j where
    j: "get_column_index t n0 = Inr j" unfolding get_column_index_def by blast
  show ?case
  proof (cases "j = - 1")
    case True
    with j show ?thesis by (simp add: raising_def)
  next
    case False
    with j column_index_from_unknown[OF assms(1), of 0] have "n0 \<noteq> nm"
      by (auto simp: get_column_index_def)
    with Cons.prems have "nm \<in> set names" by simp
    from Cons.IH[OF this] obtain n where
      "resolve_columns t (map Identifier names) = Inl (Returned_False (ColumnNotFound n))"
      by blast
    with j False show ?thesis by (simp add: raising_def)
  qed
qed

subsection \<open>Unknown names in a condition and in a column list\<close>

text \<open>
  On a table whose column names are texts, as a caller of \<^verbatim>\<open>create_table\<close> gives them, the
  lookup of a name is lenient in a condition and strict in a column list. Let \<open>nm\<close> name
  no column of the table \<open>t\<close>: every column has a text as its name, and none is \<open>nm\<close>
  when letter case is ignored. Then the identifier \<open>nm\<close> evaluates, on any row, to the
  text \<open>nm\<close>; a \<^verbatim>\<open>SELECT *\<close> never returns \<^verbatim>\<open>False\<close> on account of its \<^verbatim>\<open>WHERE\<close> clause,
  whatever the condition is; and a \<^verbatim>\<open>SELECT\<close> whose column list is made of identifiers,
  among them \<open>nm\<close>, returns \<^verbatim>\<open>False\<close> with a column that is not found. The tables that an
  executed \<^verbatim>\<open>CREATE\<close> makes are not of this kind: see below.
\<close>

theorem unknown_name_lenient_in_condition:
  assumes "\<forall>col \<in> set (columns t). \<exists>s. col_name col = NameStr s \<and> lower s \<noteq> lower nm"
  shows "evaluate_expression h (Identifier nm) (Some t) (Some row) = Inr (PyStr nm)
     \<and> (get_table db tn = Some t \<longrightarrow>
          snd (execute_select h db [Identifier ''*''] (tn # tbls) (Some c))
            \<noteq> Inl (Returned_False f))
     \<and> (get_table db tn = Some t \<longrightarrow> nm \<in> set names \<longrightarrow> hd names \<noteq> ''*'' \<longrightarrow>
          (\<exists>n. execute_select h db (map Identifier names) (tn # tbls) w =
                  (db, Inl (Returned_False (ColumnNotFound n)))))"
proof -
  from column_index_from_unknown[OF assms, of 0]
  have u: "get_column_index t nm = Inr (- 1)" by (simp add: get_column_index_def)
  then have 1: "evaluate_expression h (Identifier nm) (Some t) (Some row) = Inr (PyStr nm)"
    by simp
  have 2: "get_table db tn = Some t \<longrightarrow>
          snd (execute_select h db [Identifier ''*''] (tn # tbls) (Some c))
            \<noteq> Inl (Returned_False f)"
    by (cases "filter_rows h (Some c) t (rows t)";
        cases "print_table t (projr (filter_rows h (Some c) t (rows t)))
                 (map int [0..<length (columns t)])")
       (auto simp: execute_select_def raising_def)
  have 3: "get_table db tn = Some t \<longrightarrow> nm \<in> set names \<longrightarrow> hd names \<noteq> ''*'' \<longrightarrow>
          (\<exists>n. execute_select h db (map Identifier names) (tn # tbls) w =
                  (db, Inl (Returned_False (ColumnNotFound n))))"
  proof (intro impI)
    assume g: "get_table db tn = Some t" and n: "nm \<in> set names" and s: "hd names \<noteq> ''*''"
    from resolve_columns_unknown[OF assms n] obtain n0 where
      r: "resolve_columns t (map Identifier names) = Inl (Returned_False (ColumnNotFound n0))"
      by blast
    from n obtain x xs where names: "names = x # xs" by (cases names) auto
    with g r s have "execute_select h db (map Identifier names) (tn # tbls) w =
                  (db, Inl (Returned_False (ColumnNotFound n0)))"
      by (simp add: execute_select_def raising_def)
    then show "\<exists>n. execute_select h db (map Identifier names) (tn # tbls) w =
                  (db, Inl (Returned_False (ColumnNotFound n)))" by blast
  qed
  from 1 2 3 show ?thesis by blast
qed

theorem unknown_name_lenient_in_condition_witness:
  "map col_name (columns one_and_null) = [NameStr ''a'']
   \<and> evaluate_expression no_floats (Identifier ''nocol'') (Some one_and_null) (Some [PyInt 1])
       = Inr (PyStr ''nocol'')
   \<and> snd (execute_select no_floats one_and_null_db [Identifier ''*''] [''t'']
        (Some (Condition (Identifier ''nocol'') EQUALS (Literal INTEGER (PyInt 1)))))
       = Inr (Selected [''a''] [])
   \<and> execute_select no_floats one_and_null_db (map Identifier [''a'', ''nocol'']) [''t''] None
       = (one_and_null_db, Inl (Returned_False (ColumnNotFound ''nocol'')))"
proof -
  have a: "\<forall>col \<in> set (columns one_and_null).
       \<exists>s. col_name col = NameStr s \<and> lower s \<noteq> lower ''nocol''"
    by (simp add: one_and_null_def lower_def lower_char_def)
  have g: "get_table one_and_null_db ''t'' = Some one_and_null"
    by (simp add: executor_eval one_and_null_db_def)
  have s: "snd (execute_select no_floats one_and_null_db [Identifier ''*''] [''t'']
        (Some (Condition (Identifier ''nocol'') EQUALS (Literal INTEGER (PyInt 1)))))
       = Inr (Selected [''a''] [])"
    by (simp add: executor_eval one_and_null_db_def one_and_null_def)
  have e: "execute_select no_floats one_and_null_db (map Identifier [''a'', ''nocol'']) [''t''] None
       = (one_and_null_db, Inl (Returned_False (ColumnNotFound ''nocol'')))"
    by (simp add: executor_eval one_and_null_db_def one_and_null_def)
  have c: "map col_name (columns one_and_null) = [NameStr ''a'']"
    by (simp add: one_and_null_def)
  from unknown_name_lenient_in_condition[OF a, where h = no_floats and row = "[PyInt 1]"
      and db = one_and_null_db and tn = "''t''" and names = "[''a'', ''nocol'']"] c g s e
  show ?thesis by simp
qed

subsection \<open>Unknown names on a table made by \<^verbatim>\<open>CREATE\<close>\<close>

text \<open>
  The database after the statements \<^verbatim>\<open>CREATE TABLE t (a INT)\<close> and
  \<^verbatim>\<open>INSERT INTO t VALUES (1)\<close> are executed on the empty database.
\<close>

definition created_db :: "'f float_ops \<Rightarrow> 'f Database" where
  "created_db h =
     fst (execute_query h
            (fst (execute_query h new_Database
                    (CreateStmt ''t'' [ColumnDefNode (Identifier ''a'') INT_TYPE])))
            (InsertStmt ''t'' [] [Literal INTEGER (PyInt 1)]))"

text \<open>
  Claim C7. The table that the executed \<^verbatim>\<open>CREATE TABLE t (a INT)\<close> makes has the identifier
  node of the column definition as the name of its column, where \<open>get_column_index\<close>
  expects a text. After \<^verbatim>\<open>INSERT INTO t VALUES (1)\<close>, the identifier \<^verbatim>\<open>zz\<close>, which names no
  column, does not evaluate to the text \<^verbatim>\<open>zz\<close> on the row: the lookup of the column raises
  \<^verbatim>\<open>AttributeError\<close>. So does \<^verbatim>\<open>SELECT * FROM t WHERE zz = 1\<close>, and \<^verbatim>\<open>SELECT zz FROM t\<close>
  raises the same exception and does not return \<^verbatim>\<open>False\<close> for a column that is not found.
\<close>

theorem unknown_name_raises_on_created_table:
  "parse_query h ''CREATE TABLE t (a INT)'' =
     Inr (CreateStmt ''t'' [ColumnDefNode (Identifier ''a'') INT_TYPE])
   \<and> parse_query h ''INSERT INTO t VALUES (1)'' =
     Inr (InsertStmt ''t'' [] [Literal INTEGER (PyInt 1)])
   \<and> parse_query h ''SELECT * FROM t WHERE zz = 1'' =
     Inr (SelectStmt [Identifier ''*''] [''t''] []
            (Some (Condition (Identifier ''zz'') EQUALS (Literal INTEGER (PyInt 1)))))
   \<and> parse_query h ''SELECT zz FROM t'' = Inr (SelectStmt [Identifier ''zz''] [''t''] [] None)
   \<and> snd (execute_query h new_Database
             (CreateStmt ''t'' [ColumnDefNode (Identifier ''a'') INT_TYPE])) = Inr (Created ''t'')
   \<and> snd (execute_query h
             (fst (execute_query h new_Database
                     (CreateStmt ''t'' [ColumnDefNode (Identifier ''a'') INT_TYPE])))
             (InsertStmt ''t'' [] [Literal INTEGER (PyInt 1)])) = Inr Inserted
   \<and> get_table (created_db h) ''t'' =
       Some \<lparr>name = ''t'', title = ''t'',
             columns = [\<lparr>col_name = NameNode (Identifier ''a''), col_type = INT_TYPE\<rparr>],
             rows = [[PyInt 1]]\<rparr>
   \<and> evaluate_expression h (Identifier ''zz'')
         (Some \<lparr>name = ''t'', title = ''t'',
             columns = [\<lparr>col_name = NameNode (Identifier ''a''), col_type = INT_TYPE\<rparr>],
             rows = [[PyInt 1]]\<rparr>) (Some [PyInt 1]) = Inl AttributeError
   \<and> snd (execute_query h (created_db h)
            (SelectStmt [Identifier ''*''] [''t''] []
               (Some (Condition (Identifier ''zz'') EQUALS (Literal INTEGER (PyInt 1))))))
       = Inl (Raised AttributeError)
   \<and> snd (execute_query h (created_db h) (SelectStmt [Identifier ''zz''] [''t''] [] None))
       = Inl (Raised AttributeError)"
proof -
  have 1: "parse_query h ''CREATE TABLE t (a INT)'' =
     Inr (CreateStmt ''t'' [ColumnDefNode (Identifier ''a'') INT_TYPE])"
    by (simp add: lexer_eval parser_eval)
  have 2: "parse_query h ''INSERT INTO t VALUES (1)'' =
     Inr (InsertStmt ''t'' [] [Literal INTEGER (PyInt 1)])"
    by (simp add: lexer_eval parser_eval)
  have 3: "parse_query h ''SELECT * FROM t WHERE zz = 1'' =
     Inr (SelectStmt [Identifier ''*''] [''t''] []
            (Some (Condition (Identifier ''zz'') EQUALS (Literal INTEGER (PyInt 1)))))"
    by (simp add: lexer_eval parser_eval)
  have 4: "parse_query h ''SELECT zz FROM t'' = Inr (SelectStmt [Identifier ''zz''] [''t''] [] None)"
    by (simp add: lexer_eval parser_eval)
  have 5: "snd (execute_query h new_Database
             (CreateStmt ''t'' [ColumnDefNode (Identifier ''a'') INT_TYPE])) = Inr (Created ''t'')"
    by (simp add: executor_eval)
  have 6: "snd (execute_query h
             (fst (execute_query h new_Database
                     (CreateStmt ''t'' [ColumnDefNode (Identifier ''a'') INT_TYPE])))
             (InsertStmt ''t'' [] [Literal INTEGER (PyInt 1)])) = Inr Inserted"
    by (simp add: executor_eval)
  have 7: "get_table (created_db h) ''t'' =
       Some \<lparr>name = ''t'', title = ''t'',
             columns = [\<lparr>col_name = NameNode (Identifier ''a''), col_type = INT_TYPE\<rparr>],
             rows = [[PyInt 1]]\<rparr>"
    by (simp add: created_db_def executor_eval)
  have 8: "evaluate_expression h (Identifier ''zz'')
         (Some \<lparr>name = ''t'', title = ''t'',
             columns = [\<lparr>col_name = NameNode (Identifier ''a''), col_type = INT_TYPE\<rparr>],
             rows = [[PyInt 1]]\<rparr>) (Some [PyInt 1]) = Inl AttributeError"
    by (simp add: executor_eval)
  have 9: "snd (execute_query h (created_db h)
            (SelectStmt [Identifier ''*''] [''t''] []
               (Some (Condition (Identifier ''zz'') EQUALS (Literal INTEGER (PyInt 1))))))
       = Inl (Raised AttributeError)"
    using 7 by (simp add: execute_select_def raising_def row_matches_def get_column_index_def)
  have 10: "snd (execute_query h (created_db h) (SelectStmt [Identifier ''zz''] [''t''] [] None))
       = Inl (Raised AttributeError)"
    using 7 by (simp add: execute_select_def raising_def get_column_index_def)
  from 1 2 3 4 5 6 7 8 9 10 show ?thesis by blast
qed

subsection \<open>A column list that does not start with an identifier\<close>

text \<open>
  Claim C9, amended. When the first table of the \<^verbatim>\<open>FROM\<close> list exists and the first node of
  the column list is not an identifier, \<^verbatim>\<open>_execute_select\<close> raises \<^verbatim>\<open>KeyError\<close>; when that
  table does not exist, it returns \<^verbatim>\<open>False\<close> for the missing table before it reads the
  column list. The parser accepts \<^verbatim>\<open>SELECT 1 FROM t\<close> and \<^verbatim>\<open>SELECT a.b FROM t\<close>, whose first
  column is a literal and an expression.
\<close>

theorem select_first_column_key_error:
  "(get_table db tn = Some t \<longrightarrow> (\<forall>nm. c \<noteq> Identifier nm) \<longrightarrow>
      execute_query h db (SelectStmt (c # cols) (tn # tbls) joins w) = (db, Inl (Raised KeyError)))
   \<and> (get_table db tn = None \<longrightarrow>
      execute_query h db (SelectStmt (c # cols) (tn # tbls) joins w)
        = (db, Inl (Returned_False (TableNotFound tn))))
   \<and> parse_query h ''SELECT 1 FROM t'' =
       Inr (SelectStmt [Literal INTEGER (PyInt 1)] [''t''] [] None)
   \<and> parse_query h ''SELECT a.b FROM t'' =
       Inr (SelectStmt [Expression (Identifier ''a'') DOT (Identifier ''b'')] [''t''] [] None)"
proof -
  have 1: "get_table db tn = Some t \<longrightarrow> (\<forall>nm. c \<noteq> Identifier nm) \<longrightarrow>
      execute_query h db (SelectStmt (c # cols) (tn # tbls) joins w) = (db, Inl (Raised KeyError))"
    by (cases c) (auto simp: execute_select_def raising_def)
  have 2: "get_table db tn = None \<longrightarrow>
      execute_query h db (SelectStmt (c # cols) (tn # tbls) joins w)
        = (db, Inl (Returned_False (TableNotFound tn)))"
    by (simp add: execute_select_def)
  have 3: "parse_query h ''SELECT 1 FROM t'' =
       Inr (SelectStmt [Literal INTEGER (PyInt 1)] [''t''] [] None)"
    by (simp add: lexer_eval parser_eval)
  have 4: "parse_query h ''SELECT a.b FROM t'' =
       Inr (SelectStmt [Expression (Identifier ''a'') DOT (Identifier ''b'')] [''t''] [] None)"
    by (simp add: lexer_eval parser_eval)
  from 1 2 3 4 show ?thesis by blast
qed

theorem select_first_column_key_error_witness:
  "get_table one_and_null_db ''t'' = Some one_and_null
   \<and> execute_query no_floats one_and_null_db
        (SelectStmt [Literal INTEGER (PyInt 1)] [''t''] [] None)
      = (one_and_null_db, Inl (Raised KeyError))
   \<and> get_table one_and_null_db ''u'' = None
   \<and> execute_query no_floats one_and_null_db
        (SelectStmt [Literal INTEGER (PyInt 1)] [''u''] [] None)
      = (one_and_null_db, Inl (Returned_False (TableNotFound ''u'')))"
proof -
  have g: "get_table one_and_null_db ''t'' = Some one_and_null"
    by (simp add: executor_eval one_and_null_db_def)
  have u: "get_table one_and_null_db ''u'' = None"
    by (simp add: executor_eval one_and_null_db_def)
  from select_first_column_key_error[where h = no_floats and db = one_and_null_db
      and tn = "''t''" and t = one_and_null and c = "Literal INTEGER (PyInt 1)"
      and cols = "[]" and tbls = "[]" and joins = "[]" and w = None]
    select_first_column_key_error[where h = no_floats and db = one_and_null_db
      and tn = "''u''" and c = "Literal INTEGER (PyInt 1)"
      and cols = "[]" and tbls = "[]" and joins = "[]" and w = None] g u
  show ?thesis by simp
qed

text \<open>
  The claim as it stands fails when the table is missing: \<^verbatim>\<open>SELECT 1 FROM t\<close> on the empty
  database returns \<^verbatim>\<open>False\<close> with the message that the table is not found, and raises
  nothing.
\<close>

theorem select_missing_table_counterexample:
  "parse_query no_floats ''SELECT 1 FROM t'' =
     Inr (SelectStmt [Literal INTEGER (PyInt 1)] [''t''] [] None)
   \<and> snd (execute_query no_floats new_Database
        (SelectStmt [Literal INTEGER (PyInt 1)] [''t''] [] None))
      = Inl (Returned_False (TableNotFound ''t''))"
proof -
  have p: "parse_query no_floats ''SELECT 1 FROM t'' =
     Inr (SelectStmt [Literal INTEGER (PyInt 1)] [''t''] [] None)"
    by (simp add: lexer_eval parser_eval)
  show ?thesis unfolding p by (simp add: executor_eval)
qed

text \<open>
  The invariant of a table's values: every value of every row passes \<open>validate_type\<close> for
  the column at its position.
\<close>

definition table_well_typed :: "'f Table \<Rightarrow> bool" where
  "table_well_typed t =
     list_all (\<lambda>row. list_all (\<lambda>(v, col). validate_type v (col_type col)) (zip row (columns t)))
       (rows t)"

subsection \<open>Types of stored values after an \<^verbatim>\<open>UPDATE\<close>\<close>

text \<open>
  Claim C2. On the table \<^verbatim>\<open>t\<close> with the \<^verbatim>\<open>INT\<close> column \<^verbatim>\<open>a\<close> and the rows \<^verbatim>\<open>[1]\<close> and
  \<^verbatim>\<open>[None]\<close>, which satisfies the invariant, \<^verbatim>\<open>UPDATE t SET a = 'x'\<close> completes and leaves
  the text \<^verbatim>\<open>x\<close> in the \<^verbatim>\<open>INT\<close> column of both rows: \<^verbatim>\<open>_execute_update\<close> assigns the value
  without the check of \<open>validate_type\<close> that \<open>add_row\<close> makes for an \<^verbatim>\<open>INSERT\<close>.
\<close>

theorem update_stores_text_in_int_column:
  "table_well_typed one_and_null
   \<and> parse_query no_floats ''UPDATE t SET a = 'x' '' =
       Inr (UpdateStmt ''t'' [Expression (Identifier ''a'') EQUALS (Literal STRING (PyStr ''x''))]
              None)
   \<and> execute_query no_floats one_and_null_db
        (UpdateStmt ''t'' [Expression (Identifier ''a'') EQUALS (Literal STRING (PyStr ''x''))] None)
      = (one_and_null_db\<lparr>tables := (tables one_and_null_db)
            (''t'' \<mapsto> one_and_null\<lparr>rows := [[PyStr ''x''], [PyStr ''x'']]\<rparr>)\<rparr>,
         Inr (Updated 2))
   \<and> \<not> table_well_typed (one_and_null\<lparr>rows := [[PyStr ''x''], [PyStr ''x'']]\<rparr>)"
proof -
  have 1: "table_well_typed one_and_null"
    by (simp add: table_well_typed_def one_and_null_def validate_type_def)
  have 2: "parse_query no_floats ''UPDATE t SET a = 'x' '' =
       Inr (UpdateStmt ''t'' [Expression (Identifier ''a'') EQUALS (Literal STRING (PyStr ''x''))]
              None)"
    by (simp add: lexer_eval parser_eval)
  have 3: "execute_query no_floats one_and_null_db
        (UpdateStmt ''t'' [Expression (Identifier ''a'') EQUALS (Literal STRING (PyStr ''x''))] None)
      = (one_and_null_db\<lparr>tables := (tables one_and_null_db)
            (''t'' \<mapsto> one_and_null\<lparr>rows := [[PyStr ''x''], [PyStr ''x'']]\<rparr>)\<rparr>,
         Inr (Updated 2))"
    by (simp add: executor_eval one_and_null_db_def one_and_null_def)
  have 4: "\<not> table_well_typed (one_and_null\<lparr>rows := [[PyStr ''x''], [PyStr ''x'']]\<rparr>)"
    by (simp add: table_well_typed_def one_and_null_def validate_type_def)
  from 1 2 3 4 show ?thesis by blast
qed

text \<open>
  The other statements keep the invariant: an \<^verbatim>\<open>INSERT\<close> appends only a row that
  \<open>add_row\<close> has checked, a \<^verbatim>\<open>DELETE\<close> keeps some of the rows, and a \<^verbatim>\<open>CREATE\<close> makes a
  table without rows.
\<close>

lemma failing_Inr: "failing m = Inr x \<longleftrightarrow> m = Inr x"
  by (cases m) (simp_all add: failing_def)

lemma add_row_well_typed:
  "add_row t vals = Inr t' \<Longrightarrow> table_well_typed t \<Longrightarrow> table_well_typed t'"
  by (auto simp: add_row_def table_well_typed_def split: if_splits)

lemma insert_keeps_well_typed:
  assumes "\<forall>k t. tables db k = Some t \<longrightarrow> table_well_typed t"
    and "execute_insert h db tn cols vals = (db', r)"
  shows "\<forall>k t. tables db' k = Some t \<longrightarrow> table_well_typed t"
proof (cases "get_table db tn")
  case None
  with assms show ?thesis by (simp add: execute_insert_def)
next
  case (Some t)
  then have wt: "table_well_typed t" using assms(1) by (simp add: get_table_def)
  show ?thesis
  proof (cases "and_then (insert_values h t cols vals) (\<lambda>buf. failing (add_row t buf))")
    case (Inl a)
    with Some assms show ?thesis by (simp add: execute_insert_def)
  next
    case (Inr t')
    then obtain buf where "add_row t buf = Inr t'"
      by (auto simp: and_then_Inr failing_Inr)
    from add_row_well_typed[OF this wt] Some Inr assms show ?thesis
      by (auto simp: execute_insert_def split: if_splits)
  qed
qed

lemma delete_keeps_well_typed:
  assumes "\<forall>k t. tables db k = Some t \<longrightarrow> table_well_typed t"
    and "execute_delete h db tn w = (db', r)"
  shows "\<forall>k t. tables db' k = Some t \<longrightarrow> table_well_typed t"
proof (cases "get_table db tn")
  case None
  with assms show ?thesis by (simp add: execute_delete_def)
next
  case (Some t)
  then have wt: "table_well_typed t" using assms(1) by (simp add: get_table_def)
  show ?thesis
  proof (cases "delete_rows h w t (rows t)")
    case (Inl e)
    with Some assms show ?thesis by (simp add: execute_delete_def)
  next
    case (Inr p)
    obtain kept n where p: "p = (kept, n)" by (cases p)
    have "set kept \<subseteq> set (rows t)"
    proof (cases w)
      case None
      with Inr p show ?thesis by (simp add: delete_rows_None)
    next
      case (Some c)
      with Inr p delete_rows_Some[of h c t "rows t" kept n] show ?thesis by auto
    qed
    with wt have "table_well_typed (t\<lparr>rows := kept\<rparr>)"
      by (auto simp: table_well_typed_def list_all_iff)
    with Some Inr p assms show ?thesis by (auto simp: execute_delete_def split: if_splits)
  qed
qed

lemma create_keeps_well_typed:
  assumes "\<forall>k t. tables db k = Some t \<longrightarrow> table_well_typed t"
    and "execute_create db tn col_nodes = (db', r)"
  shows "\<forall>k t. tables db' k = Some t \<longrightarrow> table_well_typed t"
  using assms
  by (auto simp: execute_create_def create_table_def new_Table_def table_well_typed_def Let_def
           split: if_splits)

end
